theory Spec2Isabelle
  imports Complex_Main
begin

section \<open>Distributed training utilities of anyrl/algos/mpi.py\<close>

text \<open>
  The module wraps a TensorFlow optimizer so that gradients are averaged over the
  processes of \<open>MPI.COMM_WORLD\<close>, and synchronises variables from rank 0.
  Every process runs the same program (SPMD). A group of \<open>N\<close> processes is a list of
  per-process states of length \<open>N\<close>; the position in the list is the rank, so
  \<open>Get_size()\<close> is the length of the list and rank 0 is its head. A collective call
  is one step of the whole group: every process contributes its argument and receives
  the result.
\<close>

subsection \<open>NumPy arrays, tensors, operations\<close>

datatype dtype = Float16 | Float32 | Float64 | Int32 | Int64

text \<open>
  A NumPy value: element type, shape, and the elements in row-major order. The element
  carrier \<open>'a\<close> is left open; the arithmetic of NumPy and MPI on it is a parameter
  (record \<open>arith\<close> below), so nothing is assumed about rounding.
\<close>

record 'a ndarray =
  nd_dtype :: dtype
  nd_shape :: "nat list"
  nd_data :: "'a list"

text \<open>
  A graph tensor is either a node of the user's graph or a placeholder made by
  \<open>tf.placeholder\<close>; placeholders are numbered in creation order.
\<close>

datatype 'n tensor = Node 'n | Placeholder nat

text \<open>The two kinds of executable operation the module builds.\<close>

datatype ('n, 'v) operation =
    ApplyGradients "('n tensor \<times> 'v) list"
  | Assign 'v "'n tensor"

type_synonym ('n, 'a) feed = "'n tensor \<rightharpoonup> 'a ndarray"

text \<open>A session holds the current value of every variable.\<close>

type_synonym ('v, 'a) session = "'v \<Rightarrow> 'a ndarray"

datatype error =
    InvalidArgument   \<comment> \<open>TensorFlow: a placeholder was run without a fed value\<close>
  | CountMismatch     \<comment> \<open>MPI: the buffers of one collective differ in size\<close>
  | CollectiveMismatch \<comment> \<open>MPI: processes disagree on the next collective (hang)\<close>
  | IndexError        \<comment> \<open>Python: tuple index out of range\<close>

text \<open>
  The graph under construction: the \<open>GLOBAL_VARIABLES\<close> collection and the number of
  placeholders created so far.
\<close>

record 'v graph =
  global_variables :: "'v list"
  next_placeholder :: nat

text \<open>
  What TensorFlow computes is a parameter: the value of a tensor in a session under a
  feed dict, and the new variable values after the apply step of the wrapped optimizer.
\<close>

record ('n, 'v, 'a) tf_sem =
  eval_tensor :: "('v, 'a) session \<Rightarrow> ('n, 'a) feed \<Rightarrow> 'n tensor \<Rightarrow> 'a ndarray"
  apply_update :: "('n tensor \<times> 'v) list \<Rightarrow> ('n, 'a) feed \<Rightarrow> ('v, 'a) session \<Rightarrow> ('v, 'a) session"

text \<open>\<open>tf.placeholder(...)\<close>: a fresh placeholder; the variable collection is untouched.\<close>

definition tf_placeholder :: "'v graph \<Rightarrow> 'n tensor \<times> 'v graph" where
  "tf_placeholder g = (Placeholder (next_placeholder g), g\<lparr>next_placeholder := Suc (next_placeholder g)\<rparr>)"

text \<open>\<open>sess.run(var)\<close> reads a variable.\<close>

definition sess_run_var :: "('v, 'a) session \<Rightarrow> 'v \<Rightarrow> 'a ndarray" where
  "sess_run_var sess var = sess var"

text \<open>\<open>sess.run(fetches, feed_dict)\<close> for a list of tensors: one value per fetch, in order.\<close>

definition sess_run :: "('n, 'v, 'a) tf_sem \<Rightarrow> ('v, 'a) session \<Rightarrow> 'n tensor list \<Rightarrow> ('n, 'a) feed \<Rightarrow> 'a ndarray list" where
  "sess_run tf sess fetches feed_dict = map (eval_tensor tf sess feed_dict) fetches"

text \<open>
  \<open>sess.run(op, feed_dict)\<close> for an operation. \<open>tf.assign(v, ph)\<close> stores the value fed
  for \<open>ph\<close> into \<open>v\<close> and fails when \<open>ph\<close> is not fed.
\<close>

fun sess_run_op :: "('n, 'v, 'a) tf_sem \<Rightarrow> ('v, 'a) session \<Rightarrow> ('n, 'v) operation \<Rightarrow> ('n, 'a) feed
    \<Rightarrow> error + ('v, 'a) session" where
  "sess_run_op tf sess (ApplyGradients apply_in) feed_dict = Inr (apply_update tf apply_in feed_dict sess)"
| "sess_run_op tf sess (Assign v ph) feed_dict =
     (case feed_dict ph of None \<Rightarrow> Inl InvalidArgument | Some x \<Rightarrow> Inr (sess(v := x)))"

text \<open>Collect the results of all processes; the first error wins.\<close>

fun sequence :: "('e + 'b) list \<Rightarrow> 'e + 'b list" where
  "sequence [] = Inr []"
| "sequence (r # rs) =
     (case r of Inl e \<Rightarrow> Inl e
      | Inr x \<Rightarrow> (case sequence rs of Inl e \<Rightarrow> Inl e | Inr xs \<Rightarrow> Inr (x # xs)))"

subsection \<open>\<open>_VarSync\<close>\<close>

record ('n, 'v) VarSync =
  vs_variables :: "'v list"
  vs_placeholders :: "'n tensor list"
  vs_assigns :: "('n, 'v) operation list"

text \<open>The list comprehension of line 96: one fresh placeholder per variable.\<close>

fun make_placeholders :: "'x list \<Rightarrow> 'v graph \<Rightarrow> 'n tensor list \<times> 'v graph" where
  "make_placeholders [] g = ([], g)"
| "make_placeholders (x # xs) g =
     (let (ph, g1) = tf_placeholder g;
          (phs, g2) = make_placeholders xs g1
      in (ph # phs, g2))"

text \<open>\<open>_VarSync.__init__\<close> (lines 94-98).\<close>

definition VarSync_init :: "'v list \<Rightarrow> 'v graph \<Rightarrow> ('n, 'v) VarSync \<times> 'v graph" where
  "VarSync_init variables g =
     (let (phs, g1) = make_placeholders variables g
      in (\<lparr>vs_variables = variables,
           vs_placeholders = phs,
           vs_assigns = map (\<lambda>(v, ph). Assign v ph) (zip variables phs)\<rparr>, g1))"

text \<open>\<open>zip(a, b, c)\<close> of three lists stops with the shortest.\<close>

definition zip3 :: "'x list \<Rightarrow> 'y list \<Rightarrow> 'z list \<Rightarrow> ('x \<times> 'y \<times> 'z) list" where
  "zip3 xs ys zs = zip xs (zip ys zs)"

text \<open>
  The body of the loop of \<open>sync\<close> (lines 106-109) on one process. \<open>root_value\<close> is what
  \<open>bcast\<close> returns on this process: the object passed by rank 0.
\<close>

definition sync_body :: "('n, 'v, 'a) tf_sem \<Rightarrow> nat \<Rightarrow> 'v \<times> 'n tensor \<times> ('n, 'v) operation \<Rightarrow> 'a ndarray
    \<Rightarrow> ('v, 'a) session \<Rightarrow> error + ('v, 'a) session" where
  "sync_body tf rank item root_value sess =
     (case item of (var, ph, assign) \<Rightarrow>
        if rank = 0 then Inr sess
        else sess_run_op tf sess assign [ph \<mapsto> root_value])"

text \<open>
  The loop of \<open>sync\<close> run by the whole group in lockstep: in each iteration rank 0
  evaluates \<open>sess.run(var)\<close> in its current session and broadcasts it.
\<close>

fun sync_loop :: "('n, 'v, 'a) tf_sem \<Rightarrow> ('v \<times> 'n tensor \<times> ('n, 'v) operation) list
    \<Rightarrow> ('v, 'a) session list \<Rightarrow> error + ('v, 'a) session list" where
  "sync_loop tf [] sessions = Inr sessions"
| "sync_loop tf (item # items) sessions =
     (case sessions of
        [] \<Rightarrow> Inr []
      | root_sess # _ \<Rightarrow>
          (case sequence (map (\<lambda>(rank, sess). sync_body tf rank item (sess_run_var root_sess (fst item)) sess)
                              (enumerate 0 sessions)) of
             Inl e \<Rightarrow> Inl e
           | Inr sessions' \<Rightarrow> sync_loop tf items sessions'))"

text \<open>\<open>_VarSync.sync\<close> (lines 100-109), for the group.\<close>

definition sync :: "('n, 'v, 'a) tf_sem \<Rightarrow> ('n, 'v) VarSync \<Rightarrow> ('v, 'a) session list
    \<Rightarrow> error + ('v, 'a) session list" where
  "sync tf self sessions =
     sync_loop tf (zip3 (vs_variables self) (vs_placeholders self) (vs_assigns self)) sessions"

subsection \<open>Arithmetic of NumPy, MPI and Python\<close>

text \<open>
  The module does no arithmetic of its own: it calls NumPy (\<open>np.array\<close> with a dtype,
  \<open>np.zeros\<close>, in-place \<open>/=\<close>), MPI (\<open>MPI.SUM\<close>) and Python (\<open>+\<close>, \<open>/\<close>, unary
  \<open>-\<close> and \<open>%\<close> on the objects returned by \<open>sess.run\<close>). These are parameters.

  MPI does not say in which order a reduction combines the contributions of the
  processes, and with floating-point addition the order matters. So the sum of a
  reduction is a parameter as a whole: \<open>mpi_sum d j xs\<close> is the sum MPI delivers for the
  element at position \<open>j\<close> of buffers of dtype \<open>d\<close>, given the contributions \<open>xs\<close> of all
  processes in rank order (the association may depend on the position), and
  \<open>py_sum objs\<close> is what the object reduction delivers for the objects \<open>objs\<close> of all
  processes in rank order, combining them with Python's \<open>+\<close>.
\<close>

record 'a arith =
  astype :: "dtype \<Rightarrow> 'a \<Rightarrow> 'a"          \<comment> \<open>conversion of one element to a dtype\<close>
  zero :: "dtype \<Rightarrow> 'a"                    \<comment> \<open>the element of \<open>np.zeros\<close>\<close>
  mpi_sum :: "dtype \<Rightarrow> nat \<Rightarrow> 'a list \<Rightarrow> 'a"   \<comment> \<open>\<open>MPI.SUM\<close> over the contributions of all ranks\<close>
  divide :: "dtype \<Rightarrow> 'a \<Rightarrow> nat \<Rightarrow> 'a"    \<comment> \<open>an element of a dtype divided in place by an int\<close>
  py_sum :: "'a ndarray list \<Rightarrow> 'a ndarray"              \<comment> \<open>Python \<open>+\<close> over the objects of all ranks\<close>
  py_truediv :: "'a ndarray \<Rightarrow> nat \<Rightarrow> 'a ndarray"      \<comment> \<open>Python \<open>x / n\<close>\<close>
  py_neg :: "'a ndarray \<Rightarrow> 'a ndarray"                   \<comment> \<open>Python \<open>-x\<close>\<close>
  py_format :: "int \<Rightarrow> 'a ndarray \<Rightarrow> 'a ndarray \<Rightarrow> 'a ndarray \<Rightarrow> 'a ndarray \<Rightarrow> string"
    \<comment> \<open>the \<open>%\<close> formatting of the log line\<close>

text \<open>\<open>np.zeros(shape, dtype=d)\<close>\<close>

definition np_zeros :: "'a arith \<Rightarrow> nat list \<Rightarrow> dtype \<Rightarrow> 'a ndarray" where
  "np_zeros ar shape d = \<lparr>nd_dtype = d, nd_shape = shape, nd_data = replicate (prod_list shape) (zero ar d)\<rparr>"

text \<open>\<open>np.array(x, dtype=d)\<close>: a converted copy of the same shape.\<close>

definition np_array :: "'a arith \<Rightarrow> 'a ndarray \<Rightarrow> dtype \<Rightarrow> 'a ndarray" where
  "np_array ar x d = \<lparr>nd_dtype = d, nd_shape = nd_shape x, nd_data = map (astype ar d) (nd_data x)\<rparr>"

text \<open>\<open>x /= n\<close> on an array: elementwise, the dtype and shape of \<open>x\<close> stay.\<close>

definition np_idiv :: "'a arith \<Rightarrow> 'a ndarray \<Rightarrow> nat \<Rightarrow> 'a ndarray" where
  "np_idiv ar x n = x\<lparr>nd_data := map (\<lambda>e. divide ar (nd_dtype x) e n) (nd_data x)\<rparr>"

subsection \<open>The collectives of \<open>MPI.COMM_WORLD\<close>\<close>

text \<open>
  \<open>Allreduce(send, recv, op=MPI.SUM)\<close>, called by every process with its pair of
  buffers (in rank order). All buffers must have one dtype and one element count; then
  every receive buffer is overwritten with the elementwise sum of the send buffers.
\<close>

definition Allreduce_SUM :: "'a arith \<Rightarrow> ('a ndarray \<times> 'a ndarray) list \<Rightarrow> error + 'a ndarray list" where
  "Allreduce_SUM ar bufs =
     (case bufs of
        [] \<Rightarrow> Inr []
      | (send0, recv0) # rest \<Rightarrow>
          if list_all (\<lambda>(send, recv).
                 nd_dtype send = nd_dtype send0 \<and> nd_dtype recv = nd_dtype send0 \<and>
                 length (nd_data send) = length (nd_data send0) \<and>
                 length (nd_data recv) = length (nd_data send0)) bufs
          then let total = map (\<lambda>j. mpi_sum ar (nd_dtype send0) j (map (\<lambda>(send, recv). nd_data send ! j) bufs))
                               [0..<length (nd_data send0)]
               in Inr (map (\<lambda>(send, recv). recv\<lparr>nd_data := total\<rparr>) bufs)
          else Inl CountMismatch)"

text \<open>
  \<open>allreduce(obj, op=MPI.SUM)\<close> (lower case): the pickled objects of all processes are
  combined with Python's \<open>+\<close>; every process receives the total.
\<close>

definition allreduce_SUM :: "'a arith \<Rightarrow> 'a ndarray list \<Rightarrow> 'a ndarray list" where
  "allreduce_SUM ar objs = map (\<lambda>_. py_sum ar objs) objs"

text \<open>
  The communicator pairs the k-th collective call of every process. Given the list of
  items each process loops over, \<open>columns\<close> returns, per iteration, the items of all
  processes in rank order; processes that loop a different number of times never meet
  in the same collective.
\<close>

fun next_items :: "'x list list \<Rightarrow> ('x \<times> 'x list) list option" where
  "next_items [] = Some []"
| "next_items (xs # xss) =
     (case xs of [] \<Rightarrow> None
      | y # ys \<Rightarrow> (case next_items xss of None \<Rightarrow> None | Some r \<Rightarrow> Some ((y, ys) # r)))"

fun columns_from :: "'x list \<Rightarrow> 'x list list \<Rightarrow> error + 'x list list" where
  "columns_from [] others = (if list_all (\<lambda>xs. xs = []) others then Inr [] else Inl CollectiveMismatch)"
| "columns_from (x # xs) others =
     (case next_items others of
        None \<Rightarrow> Inl CollectiveMismatch
      | Some r \<Rightarrow>
          (case columns_from xs (map snd r) of
             Inl e \<Rightarrow> Inl e
           | Inr cols \<Rightarrow> Inr ((x # map fst r) # cols)))"

definition columns :: "'x list list \<Rightarrow> error + 'x list list" where
  "columns xss = (case xss of [] \<Rightarrow> Inr [] | first # others \<Rightarrow> columns_from first others)"

subsection \<open>\<open>MPIOptimizer\<close>\<close>

text \<open>
  The wrapped optimizer: \<open>compute_gradients\<close> returns (gradient, variable) pairs, the
  gradient possibly \<open>None\<close>; \<open>apply_gradients\<close> builds the apply operation and may add
  variables of its own (slots) to the graph.
\<close>

record ('n, 'v, 'l) optimizer =
  compute_gradients :: "'l \<Rightarrow> 'v list option \<Rightarrow> 'v graph \<Rightarrow> ('n tensor option \<times> 'v) list \<times> 'v graph"
  create_slots :: "('n tensor \<times> 'v) list \<Rightarrow> 'v graph \<Rightarrow> 'v graph"

definition apply_gradients :: "('n, 'v, 'l) optimizer \<Rightarrow> ('n tensor \<times> 'v) list \<Rightarrow> 'v graph
    \<Rightarrow> ('n, 'v) operation \<times> 'v graph" where
  "apply_gradients opt apply_in g = (ApplyGradients apply_in, create_slots opt apply_in g)"

record ('n, 'v) MPIOptimizer =
  grads :: "('n tensor \<times> 'v) list"
  placeholders :: "'n tensor list"
  apply_op :: "('n, 'v) operation"
  var_sync :: "('n, 'v) VarSync"

text \<open>The comprehension of lines 19-20: the pairs whose gradient is not \<open>None\<close>.\<close>

fun non_null :: "('t option \<times> 'v) list \<Rightarrow> ('t \<times> 'v) list" where
  "non_null [] = []"
| "non_null ((None, v) # pairs) = non_null pairs"
| "non_null ((Some t, v) # pairs) = (t, v) # non_null pairs"

text \<open>The loop of lines 27-30, with its two accumulators.\<close>

fun placeholder_loop :: "('n tensor \<times> 'v) list \<Rightarrow> 'v graph \<Rightarrow> 'n tensor list \<Rightarrow> ('n tensor \<times> 'v) list
    \<Rightarrow> 'n tensor list \<times> ('n tensor \<times> 'v) list \<times> 'v graph" where
  "placeholder_loop [] g phs apply_in = (phs, apply_in, g)"
| "placeholder_loop ((grad, var) # rest) g phs apply_in =
     (let (placeholder, g1) = tf_placeholder g
      in placeholder_loop rest g1 (phs @ [placeholder]) (apply_in @ [(placeholder, var)]))"

text \<open>\<open>MPIOptimizer.__init__\<close> (lines 17-34).\<close>

definition MPIOptimizer_init :: "('n, 'v, 'l) optimizer \<Rightarrow> 'l \<Rightarrow> 'v list option \<Rightarrow> 'v graph
    \<Rightarrow> ('n, 'v) MPIOptimizer \<times> 'v graph" where
  "MPIOptimizer_init opt loss var_list g =
     (let old_variables = global_variables g;
          (pairs, g1) = compute_gradients opt loss var_list g;
          grads = non_null pairs;
          (phs, apply_in, g2) = placeholder_loop grads g1 [] [];
          (apply, g3) = apply_gradients opt apply_in g2;
          optimizer_vars = filter (\<lambda>v. v \<notin> set old_variables) (global_variables g3);
          (vs, g4) = VarSync_init (map snd grads @ optimizer_vars) g3
      in (\<lparr>grads = grads, placeholders = phs, apply_op = apply, var_sync = vs\<rparr>, g4))"

text \<open>Lines 52-55 of \<open>minimize\<close>: a missing or empty argument becomes the empty one.\<close>

definition feed_dict_or_empty :: "('n, 'a) feed option \<Rightarrow> ('n, 'a) feed" where
  "feed_dict_or_empty feed_dict = (case feed_dict of None \<Rightarrow> Map.empty | Some d \<Rightarrow> d)"

definition terms_or_empty :: "'n tensor list option \<Rightarrow> 'n tensor list" where
  "terms_or_empty terms = (case terms of None \<Rightarrow> [] | Some ts \<Rightarrow> ts)"

text \<open>
  Lines 52-59 of \<open>minimize\<close> on one process: the defaults of the two optional arguments,
  the single \<open>sess.run\<close>, and the two slices of its result.
\<close>

definition evaluate :: "('n, 'v, 'a) tf_sem \<Rightarrow> ('n, 'v) MPIOptimizer \<Rightarrow> ('v, 'a) session
    \<Rightarrow> ('n, 'a) feed option \<Rightarrow> 'n tensor list option
    \<Rightarrow> ('n, 'a) feed \<times> 'a ndarray list \<times> 'a ndarray list" where
  "evaluate tf self sess feed_dict terms =
     (let feed_dict = feed_dict_or_empty feed_dict;
          terms = terms_or_empty terms;
          outs = sess_run tf sess (terms @ map fst (grads self)) feed_dict;
          grad_outs = drop (length terms) outs;
          term_outs = take (length terms) outs
      in (feed_dict, grad_outs, term_outs))"

text \<open>Lines 63-64: the receive and send buffers one process makes for a gradient.\<close>

definition reduce_buffers :: "'a arith \<Rightarrow> 'a ndarray \<Rightarrow> 'a ndarray \<times> 'a ndarray" where
  "reduce_buffers ar grad_out =
     (let mean_grad = np_zeros ar (nd_shape grad_out) Float32;
          send_grad = np_array ar grad_out Float32
      in (send_grad, mean_grad))"

text \<open>
  One iteration of the loop of lines 62-67 on all processes: \<open>col\<close> holds the
  \<open>(grad_out, placeholder)\<close> of every process, \<open>feeds\<close> the \<open>extra_feed\<close> of every process.
\<close>

definition grad_step :: "'a arith \<Rightarrow> nat \<Rightarrow> ('a ndarray \<times> 'n tensor) list \<Rightarrow> ('n, 'a) feed list
    \<Rightarrow> error + ('n, 'a) feed list" where
  "grad_step ar comm_size col feeds =
     (case Allreduce_SUM ar (map (\<lambda>(grad_out, placeholder). reduce_buffers ar grad_out) col) of
        Inl e \<Rightarrow> Inl e
      | Inr recvs \<Rightarrow>
          Inr (map (\<lambda>((grad_out, placeholder), mean_grad, extra_feed).
                      extra_feed(placeholder \<mapsto> np_idiv ar mean_grad comm_size))
                   (zip col (zip recvs feeds))))"

fun grad_loop :: "'a arith \<Rightarrow> nat \<Rightarrow> ('a ndarray \<times> 'n tensor) list list \<Rightarrow> ('n, 'a) feed list
    \<Rightarrow> error + ('n, 'a) feed list" where
  "grad_loop ar comm_size [] feeds = Inr feeds"
| "grad_loop ar comm_size (col # cols) feeds =
     (case grad_step ar comm_size col feeds of
        Inl e \<Rightarrow> Inl e
      | Inr feeds' \<Rightarrow> grad_loop ar comm_size cols feeds')"

text \<open>
  One iteration of the loop of lines 71-73 on all processes: \<open>col\<close> holds the \<open>term\<close> of
  every process, \<open>results\<close> the \<open>result\<close> list of every process.
\<close>

definition term_step :: "'a arith \<Rightarrow> nat \<Rightarrow> 'a ndarray list \<Rightarrow> 'a ndarray list list \<Rightarrow> 'a ndarray list list" where
  "term_step ar comm_size col results =
     map (\<lambda>(total, result). result @ [py_truediv ar total comm_size]) (zip (allreduce_SUM ar col) results)"

fun term_loop :: "'a arith \<Rightarrow> nat \<Rightarrow> 'a ndarray list list \<Rightarrow> 'a ndarray list list \<Rightarrow> 'a ndarray list list" where
  "term_loop ar comm_size [] results = results"
| "term_loop ar comm_size (col # cols) results = term_loop ar comm_size cols (term_step ar comm_size col results)"

text \<open>
  What one call of \<open>minimize\<close> leaves on a process: the feed dict passed to the apply step
  (line 68), the session after it, and the returned tuple.
\<close>

record ('n, 'v, 'a) outcome =
  out_feed :: "('n, 'a) feed"
  out_sess :: "('v, 'a) session"
  out_result :: "'a ndarray list"

text \<open>
  \<open>MPIOptimizer.minimize\<close> (lines 36-74), called by every process of the group with its
  own session and feed dict and the same \<open>terms\<close>.
\<close>

definition minimize :: "'a arith \<Rightarrow> ('n, 'v, 'a) tf_sem \<Rightarrow> ('n, 'v) MPIOptimizer
    \<Rightarrow> (('v, 'a) session \<times> ('n, 'a) feed option) list \<Rightarrow> 'n tensor list option
    \<Rightarrow> error + ('n, 'v, 'a) outcome list" where
  "minimize ar tf self procs terms =
     (let comm_size = length procs;
          evals = map (\<lambda>(sess, feed_dict). evaluate tf self sess feed_dict terms) procs
      in case columns (map (\<lambda>(feed_dict, grad_outs, term_outs). zip grad_outs (placeholders self)) evals) of
           Inl e \<Rightarrow> Inl e
         | Inr grad_cols \<Rightarrow>
        (case grad_loop ar comm_size grad_cols (map fst evals) of
           Inl e \<Rightarrow> Inl e
         | Inr extra_feeds \<Rightarrow>
        (case sequence (map (\<lambda>((sess, feed_dict), extra_feed). sess_run_op tf sess (apply_op self) extra_feed)
                            (zip procs extra_feeds)) of
           Inl e \<Rightarrow> Inl e
         | Inr sessions \<Rightarrow>
        (case columns (map (\<lambda>(feed_dict, grad_outs, term_outs). term_outs) evals) of
           Inl e \<Rightarrow> Inl e
         | Inr term_cols \<Rightarrow>
             Inr (map (\<lambda>(extra_feed, sess, result).
                         \<lparr>out_feed = extra_feed, out_sess = sess, out_result = result\<rparr>)
                      (zip extra_feeds (zip sessions (term_loop ar comm_size term_cols (map (\<lambda>_. []) procs)))))))))"

text \<open>\<open>MPIOptimizer.sync_from_root\<close> (lines 76-86).\<close>

definition sync_from_root :: "('n, 'v, 'a) tf_sem \<Rightarrow> ('n, 'v) MPIOptimizer \<Rightarrow> ('v, 'a) session list
    \<Rightarrow> error + ('v, 'a) session list" where
  "sync_from_root tf self sessions = sync tf (var_sync self) sessions"

subsection \<open>\<open>mpi_ppo\<close>\<close>

text \<open>
  The attributes and methods of the \<open>ppo\<close> argument that the driver uses. The batch
  source is a finite list here.
\<close>

record ('n, 'a, 'r, 'b, 'adv, 'tgt) PPO =
  model_batches :: "'r \<Rightarrow> nat option \<Rightarrow> 'b list"
  adv_est_advantages :: "'r \<Rightarrow> 'adv"
  adv_est_targets :: "'r \<Rightarrow> 'tgt"
  ppo_feed_dict :: "'r \<Rightarrow> 'b \<Rightarrow> 'adv \<Rightarrow> 'tgt \<Rightarrow> ('n, 'a) feed"
  actor_loss :: "'n tensor"
  explained_var :: "'n tensor"
  entropy :: "'n tensor"
  num_clipped :: "'n tensor"

text \<open>\<open>t[i]\<close> on a tuple.\<close>

definition tuple_get :: "'x list \<Rightarrow> nat \<Rightarrow> error + 'x" where
  "tuple_get t i = (if i < length t then Inr (t ! i) else Inl IndexError)"

text \<open>
  Lines 141-143: the log line, when \<open>log_fn\<close> is set and the rank is 0. The calls of
  \<open>log_fn\<close> are recorded, in order, as the strings passed to it.
\<close>

definition log_batch :: "'a arith \<Rightarrow> 'f option \<Rightarrow> nat \<Rightarrow> int \<Rightarrow> 'a ndarray list \<Rightarrow> string list
    \<Rightarrow> error + string list" where
  "log_batch ar log_fn rank batch_idx terms calls =
     (if log_fn \<noteq> None \<and> rank = 0 then
        (case tuple_get terms 0 of Inl e \<Rightarrow> Inl e | Inr t0 \<Rightarrow>
        (case tuple_get terms 1 of Inl e \<Rightarrow> Inl e | Inr t1 \<Rightarrow>
        (case tuple_get terms 2 of Inl e \<Rightarrow> Inl e | Inr t2 \<Rightarrow>
        (case tuple_get terms 3 of Inl e \<Rightarrow> Inl e | Inr t3 \<Rightarrow>
           Inr (calls @ [py_format ar batch_idx (py_neg ar t0) t1 t2 t3])))))
      else Inr calls)"

text \<open>
  The loop of lines 131-147 on the process of the given rank. \<open>opt_minimize\<close> is the
  \<open>minimize\<close> method of the \<open>optimizer\<close> argument as this process sees it: from the
  session, the feed dict and the terms to the new session and the returned tuple.
  An \<open>extra_feed_dict\<close> that is an empty dict is skipped by the test of line 135;
  updating with it would change nothing, so only \<open>None\<close> is told apart.
\<close>

fun ppo_loop :: "'a arith \<Rightarrow> ('n, 'a, 'r, 'b, 'adv, 'tgt) PPO
    \<Rightarrow> ('s \<Rightarrow> ('n, 'a) feed \<Rightarrow> 'n tensor list \<Rightarrow> 's \<times> 'a ndarray list)
    \<Rightarrow> 'r \<Rightarrow> 'adv \<Rightarrow> 'tgt \<Rightarrow> int \<Rightarrow> 'f option \<Rightarrow> ('n, 'a) feed option \<Rightarrow> nat
    \<Rightarrow> 'b list \<Rightarrow> int \<Rightarrow> 's \<Rightarrow> 'a ndarray list list \<Rightarrow> string list
    \<Rightarrow> error + 's \<times> 'a ndarray list list \<times> string list" where
  "ppo_loop ar ppo opt_minimize rollouts advantages targets num_iter log_fn extra_feed_dict rank
       [] batch_idx sess result calls = Inr (sess, result, calls)"
| "ppo_loop ar ppo opt_minimize rollouts advantages targets num_iter log_fn extra_feed_dict rank
       (batch # batches) batch_idx sess result calls =
     (let feed_dict = ppo_feed_dict ppo rollouts batch advantages targets;
          feed_dict = (case extra_feed_dict of
                         None \<Rightarrow> feed_dict
                       | Some extra \<Rightarrow> feed_dict ++ extra);
          (sess', terms) = opt_minimize sess feed_dict
                             [actor_loss ppo, explained_var ppo, entropy ppo, num_clipped ppo]
      in case log_batch ar log_fn rank batch_idx terms calls of
           Inl e \<Rightarrow> Inl e
         | Inr calls' \<Rightarrow>
             (let result' = result @ [terms];
                  batch_idx' = batch_idx + 1
              in if batch_idx' = num_iter then Inr (sess', result', calls')
                 else ppo_loop ar ppo opt_minimize rollouts advantages targets num_iter log_fn
                        extra_feed_dict rank batches batch_idx' sess' result' calls'))"

text \<open>
  \<open>mpi_ppo\<close> (lines 112-148) on the process of the given rank. Besides the returned list
  the model gives the session after the last batch and the calls of \<open>log_fn\<close>.
\<close>

definition mpi_ppo :: "'a arith \<Rightarrow> nat \<Rightarrow> ('n, 'a, 'r, 'b, 'adv, 'tgt) PPO
    \<Rightarrow> ('s \<Rightarrow> ('n, 'a) feed \<Rightarrow> 'n tensor list \<Rightarrow> 's \<times> 'a ndarray list)
    \<Rightarrow> 's \<Rightarrow> 'r \<Rightarrow> nat option \<Rightarrow> int \<Rightarrow> 'f option \<Rightarrow> ('n, 'a) feed option
    \<Rightarrow> error + 's \<times> 'a ndarray list list \<times> string list" where
  "mpi_ppo ar rank ppo opt_minimize sess rollouts batch_size num_iter log_fn extra_feed_dict =
     (let batch_idx = 0;
          batches = model_batches ppo rollouts batch_size;
          advantages = adv_est_advantages ppo rollouts;
          targets = adv_est_targets ppo rollouts;
          result = []
      in ppo_loop ar ppo opt_minimize rollouts advantages targets num_iter log_fn extra_feed_dict rank
           batches batch_idx sess result [])"

subsection \<open>Notions used to state the properties\<close>

text \<open>
  The value of a gradient tensor, and of any other tensor, on the process \<open>proc\<close> of the
  group, under the feed dict that process passed to \<open>minimize\<close>.
\<close>

definition local_value :: "('n, 'v, 'a) tf_sem \<Rightarrow> ('v, 'a) session \<times> ('n, 'a) feed option \<Rightarrow> 'n tensor
    \<Rightarrow> 'a ndarray" where
  "local_value tf proc t =
     eval_tensor tf (fst proc) (case snd proc of None \<Rightarrow> Map.empty | Some feed_dict \<Rightarrow> feed_dict) t"

text \<open>
  The arrays of one gradient on all processes can be reduced together: each holds as many
  elements as its shape says, and all hold the same number.
\<close>

definition same_count :: "'a ndarray list \<Rightarrow> bool" where
  "same_count gs =
     (case gs of [] \<Rightarrow> True
      | g0 # rest \<Rightarrow>
          list_all (\<lambda>g. length (nd_data g) = length (nd_data g0) \<and>
                         prod_list (nd_shape g) = length (nd_data g)) gs)"

text \<open>
  The mean of the arrays \<open>gs\<close> of all processes (in rank order) as the group computes it:
  every element converted to float32, the elements at one position summed by MPI, the
  sum divided by the number of processes.
\<close>

definition allreduce_mean :: "'a arith \<Rightarrow> 'a ndarray list \<Rightarrow> 'a list" where
  "allreduce_mean ar gs =
     (case gs of [] \<Rightarrow> []
      | g0 # rest \<Rightarrow>
          map (\<lambda>j. divide ar Float32
                      (mpi_sum ar Float32 j (map (\<lambda>g. astype ar Float32 (nd_data g ! j)) gs))
                      (length gs))
              [0..<length (nd_data g0)])"

text \<open>The array a process feeds for a gradient: float32, of the shape of its own gradient \<open>g\<close>.\<close>

definition mean_array :: "'a arith \<Rightarrow> 'a ndarray list \<Rightarrow> 'a ndarray \<Rightarrow> 'a ndarray" where
  "mean_array ar gs g = \<lparr>nd_dtype = Float32, nd_shape = nd_shape g, nd_data = allreduce_mean ar gs\<rparr>"

text \<open>
  The feed dict of the apply step on the process \<open>proc\<close>: its own feed dict, and for each
  gradient, in the order of \<open>self.grads\<close>, the placeholder bound to the mean over the group.
\<close>

definition fed_means :: "'a arith \<Rightarrow> ('n, 'v, 'a) tf_sem \<Rightarrow> ('n, 'v) MPIOptimizer
    \<Rightarrow> (('v, 'a) session \<times> ('n, 'a) feed option) list \<Rightarrow> ('v, 'a) session \<times> ('n, 'a) feed option
    \<Rightarrow> ('n, 'a) feed" where
  "fed_means ar tf self procs proc =
     fold (\<lambda>(t, ph) fd. fd(ph \<mapsto> mean_array ar (map (\<lambda>q. local_value tf q t) procs) (local_value tf proc t)))
          (zip (map fst (grads self)) (placeholders self))
          (feed_dict_or_empty (snd proc))"

text \<open>The mean of a term over the group: the sum of the object reduction, divided by the size.\<close>

definition term_mean :: "'a arith \<Rightarrow> ('n, 'v, 'a) tf_sem \<Rightarrow> (('v, 'a) session \<times> ('n, 'a) feed option) list
    \<Rightarrow> 'n tensor \<Rightarrow> 'a ndarray" where
  "term_mean ar tf procs t =
     py_truediv ar (py_sum ar (map (\<lambda>q. local_value tf q t) procs)) (length procs)"



text \<open>
  The feed dict \<open>mpi_ppo\<close> passes to \<open>minimize\<close> for a batch, and the successive calls of
  \<open>minimize\<close> on a list of batches: the session after the last call and the returned
  tuples in call order.
\<close>

definition batch_feed :: "('n, 'a, 'r, 'b, 'adv, 'tgt) PPO \<Rightarrow> 'r \<Rightarrow> ('n, 'a) feed option \<Rightarrow> 'b \<Rightarrow> ('n, 'a) feed" where
  "batch_feed ppo rollouts extra_feed_dict batch =
     (let feed_dict = ppo_feed_dict ppo rollouts batch (adv_est_advantages ppo rollouts) (adv_est_targets ppo rollouts)
      in case extra_feed_dict of None \<Rightarrow> feed_dict | Some extra \<Rightarrow> feed_dict ++ extra)"

fun minimize_calls :: "('s \<Rightarrow> ('n, 'a) feed \<Rightarrow> 'n tensor list \<Rightarrow> 's \<times> 'a ndarray list)
    \<Rightarrow> 'n tensor list \<Rightarrow> ('n, 'a) feed list \<Rightarrow> 's \<Rightarrow> 's \<times> 'a ndarray list list" where
  "minimize_calls opt_minimize terms [] sess = (sess, [])"
| "minimize_calls opt_minimize terms (fd # fds) sess =
     (let (sess1, tuple) = opt_minimize sess fd terms;
          (sess2, tuples) = minimize_calls opt_minimize terms fds sess1
      in (sess2, tuple # tuples))"



text \<open>The log lines for a list of returned tuples, the first of them for batch \<open>batch_idx\<close>.\<close>

fun log_lines :: "'a arith \<Rightarrow> int \<Rightarrow> 'a ndarray list list \<Rightarrow> string list" where
  "log_lines ar batch_idx [] = []"
| "log_lines ar batch_idx (t # ts) =
     py_format ar batch_idx (py_neg ar (t ! 0)) (t ! 1) (t ! 2) (t ! 3) # log_lines ar (batch_idx + 1) ts"

text \<open>The calls of \<open>log_fn\<close> a process makes for a list of returned tuples.\<close>

definition logged :: "'a arith \<Rightarrow> 'f option \<Rightarrow> nat \<Rightarrow> int \<Rightarrow> 'a ndarray list list \<Rightarrow> string list" where
  "logged ar log_fn rank batch_idx tuples =
     (if log_fn \<noteq> None \<and> rank = 0 then log_lines ar batch_idx tuples else [])"

subsection \<open>A concrete group: exact arithmetic and plain gradient descent\<close>

definition scalar :: "'a \<Rightarrow> 'a ndarray" where
  "scalar x = \<lparr>nd_dtype = Float32, nd_shape = [], nd_data = [x]\<rparr>"

definition exact_arith :: "real arith" where
  "exact_arith =
     \<lparr>astype = (\<lambda>d x. x),
      zero = (\<lambda>d. 0),
      mpi_sum = (\<lambda>d j xs. sum_list xs),
      divide = (\<lambda>d x n. x / of_nat n),
      py_sum = (\<lambda>objs. case objs of
                  [] \<Rightarrow> scalar 0
                | obj0 # rest \<Rightarrow>
                    obj0\<lparr>nd_data := map (\<lambda>j. sum_list (map (\<lambda>obj. nd_data obj ! j) objs))
                                        [0..<length (nd_data obj0)]\<rparr>),
      py_truediv = (\<lambda>x n. x\<lparr>nd_data := map (\<lambda>e. e / of_nat n) (nd_data x)\<rparr>),
      py_neg = (\<lambda>x. x\<lparr>nd_data := map uminus (nd_data x)\<rparr>),
      py_format = (\<lambda>batch_idx t0 t1 t2 t3. ''batch'')\<rparr>"

text \<open>
  A graph whose tensors take their value from the feed dict (0 when not fed), and whose
  apply step is gradient descent with learning rate 1.
\<close>

definition sgd_sem :: "(string, string, real) tf_sem" where
  "sgd_sem =
     \<lparr>eval_tensor = (\<lambda>sess feed_dict t. case feed_dict t of None \<Rightarrow> scalar 0 | Some x \<Rightarrow> x),
      apply_update = (\<lambda>apply_in feed_dict sess.
         fold (\<lambda>(ph, v) s. case feed_dict ph of
                              None \<Rightarrow> s
                            | Some gval \<Rightarrow> s(v := (s v)\<lparr>nd_data := map2 (-) (nd_data (s v)) (nd_data gval)\<rparr>))
              apply_in sess)\<rparr>"

text \<open>
  An optimizer with a gradient for \<open>w\<close> and none for \<open>b\<close>, which creates one slot
  variable when the apply step is built.
\<close>

definition sgd_optimizer :: "(string, string, unit) optimizer" where
  "sgd_optimizer =
     \<lparr>compute_gradients = (\<lambda>loss var_list g. ([(Some (Node ''grad_w''), ''w''), (None, ''b'')], g)),
      create_slots = (\<lambda>apply_in g. g\<lparr>global_variables := global_variables g @ [''w/slot'']\<rparr>)\<rparr>"

definition graph0 :: "string graph" where
  "graph0 = \<lparr>global_variables = [''w'', ''b''], next_placeholder = 0\<rparr>"

definition self0 :: "(string, string) MPIOptimizer" where
  "self0 = fst (MPIOptimizer_init sgd_optimizer () None graph0)"

text \<open>Two processes with \<open>w = 0\<close>; the gradient is 1 on rank 0 and 3 on rank 1.\<close>

definition procs0 :: "((string, real) session \<times> (string, real) feed option) list" where
  "procs0 = [(\<lambda>v. scalar 0, Some [Node ''grad_w'' \<mapsto> scalar 1]),
             (\<lambda>v. scalar 0, Some [Node ''grad_w'' \<mapsto> scalar 3])]"


subsection \<open>A concrete arithmetic that rounds: IEEE float32 on the reals\<close>









subsection \<open>Further concrete inputs\<close>

text \<open>Two sessions: the root holds \<open>w = 5\<close>, the other process \<open>w = 0\<close>.\<close>

definition sessions0 :: "(string, real) session list" where
  "sessions0 = [\<lambda>v. scalar 5, \<lambda>v. scalar 0]"

text \<open>A driver input with two batches; \<open>minimize\<close> returns one entry per term.\<close>

definition ppo0 :: "(string, real, unit, nat, unit, unit) PPO" where
  "ppo0 =
     \<lparr>model_batches = (\<lambda>rollouts batch_size. [0, 1]),
      adv_est_advantages = (\<lambda>rollouts. ()),
      adv_est_targets = (\<lambda>rollouts. ()),
      ppo_feed_dict = (\<lambda>rollouts batch advantages targets. Map.empty),
      actor_loss = Node ''actor_loss'',
      explained_var = Node ''explained_var'',
      entropy = Node ''entropy'',
      num_clipped = Node ''num_clipped''\<rparr>"

definition opt_minimize0 :: "nat \<Rightarrow> (string, real) feed \<Rightarrow> string tensor list \<Rightarrow> nat \<times> real ndarray list" where
  "opt_minimize0 sess feed_dict terms = (Suc sess, map (\<lambda>t. scalar 0) terms)"

section \<open>Properties\<close>

subsection \<open>Synchronisation from the root\<close>

lemma sequence_map_Inr: "sequence (map (\<lambda>x. Inr (f x)) xs) = Inr (map f xs)"
  by (induction xs) auto

lemma sync_body_nonroot:
  "rank \<noteq> 0 \<Longrightarrow> sync_body tf rank (v, ph, Assign v ph) x sess = Inr (sess(v := x))"
  by (simp add: sync_body_def)

lemma sync_body_root: "sync_body tf 0 item x sess = Inr sess"
  by (simp add: sync_body_def split: prod.splits)

lemma sequence_nonroot:
  "sequence (map (\<lambda>(rank, sess). sync_body tf rank (v, ph, Assign v ph) x sess) (enumerate (Suc k) rest))
     = Inr (map (\<lambda>s. s(v := x)) rest)"
  by (induction rest arbitrary: k) (simp_all add: sync_body_nonroot)

lemma sync_step:
  "sequence (map (\<lambda>(rank, sess). sync_body tf rank (v, ph, Assign v ph) x sess) (enumerate 0 (r0 # rest)))
     = Inr (r0 # map (\<lambda>s. s(v := x)) rest)"
  by (simp add: sync_body_root sequence_nonroot)

lemma sync_loop_wf:
  "list_all (\<lambda>(v, ph, a). a = Assign v ph) items \<Longrightarrow>
   sync_loop tf items (r0 # rest) =
     Inr (r0 # map (fold (\<lambda>v s. s(v := r0 v)) (map fst items)) rest)"
proof (induction items arbitrary: rest)
  case Nil
  then show ?case by (simp add: map_idI)
next
  case (Cons item items)
  obtain v ph a where item: "item = (v, ph, a)" by (cases item)
  with Cons.prems have a_def: "a = Assign v ph" and wf: "list_all (\<lambda>(v, ph, a). a = Assign v ph) items"
    by simp_all
  have "sync_loop tf (item # items) (r0 # rest)
      = sync_loop tf items (r0 # map (\<lambda>s. s(v := r0 v)) rest)"
    unfolding item a_def sync_loop.simps list.case fst_conv sess_run_var_def sync_step sum.case ..
  also have "\<dots> = Inr (r0 # map (fold (\<lambda>v s. s(v := r0 v)) (map fst items))
                                (map (\<lambda>s. s(v := r0 v)) rest))"
    by (rule Cons.IH [OF wf])
  also have "\<dots> = Inr (r0 # map (fold (\<lambda>v s. s(v := r0 v)) (map fst (item # items))) rest)"
    unfolding item by (simp add: o_def del: fun_upd_apply)
  finally show ?case .
qed

lemma fold_upd_in: "v \<in> set vs \<Longrightarrow> fold (\<lambda>v s. s(v := r v)) vs s v = r v"
  by (induction vs arbitrary: s rule: rev_induct) auto

lemma fold_upd_notin: "v \<notin> set vs \<Longrightarrow> fold (\<lambda>v s. s(v := r v)) vs s v = s v"
  by (induction vs arbitrary: s) auto

lemma upt_add_Suc: "[n ..< Suc (n + k)] = n # [Suc n ..< Suc (n + k)]"
  by (simp add: upt_conv_Cons)

lemma make_placeholders_eq:
  "make_placeholders xs g =
     (map Placeholder [next_placeholder g ..< next_placeholder g + length xs],
      g\<lparr>next_placeholder := next_placeholder g + length xs\<rparr>)"
proof (induction xs arbitrary: g)
  case Nil
  show ?case by simp
next
  case (Cons x xs)
  show ?case
    unfolding make_placeholders.simps tf_placeholder_def Cons.IH list.size(4)
    by (simp add: upt_add_Suc del: upt_Suc)
qed

lemma VarSync_init_items:
  "zip3 (vs_variables (fst (VarSync_init vars g))) (vs_placeholders (fst (VarSync_init vars g)))
        (vs_assigns (fst (VarSync_init vars g)))
   = map (\<lambda>(v, ph). (v, ph, Assign v ph)) (zip vars (fst (make_placeholders vars g)))"
  by (simp add: VarSync_init_def zip3_def split: prod.splits)
     (simp add: zip_map2 zip_same_conv_map list_eq_iff_nth_eq split: prod.splits)

subsection \<open>Construction\<close>

lemma non_null_filter:
  "map (\<lambda>(grad, var). (Some grad, var)) (non_null pairs) = filter (\<lambda>pair. fst pair \<noteq> None) pairs"
  by (induction pairs rule: non_null.induct) simp_all

lemma placeholder_loop_eq:
  "placeholder_loop gs g phs apply_in =
     (phs @ map Placeholder [next_placeholder g ..< next_placeholder g + length gs],
      apply_in @ zip (map Placeholder [next_placeholder g ..< next_placeholder g + length gs]) (map snd gs),
      g\<lparr>next_placeholder := next_placeholder g + length gs\<rparr>)"
proof (induction gs arbitrary: g phs apply_in)
  case Nil
  show ?case by simp
next
  case (Cons p gs)
  obtain grad var where p: "p = (grad, var)" by (cases p)
  show ?case
    unfolding p placeholder_loop.simps tf_placeholder_def Cons.IH list.size(4)
    by (simp add: upt_add_Suc del: upt_Suc)
qed

lemma MPIOptimizer_init_eq:
  "fst (MPIOptimizer_init opt loss var_list g) =
     (let (pairs, g1) = compute_gradients opt loss var_list g;
          gs = non_null pairs;
          phs = map Placeholder [next_placeholder g1 ..< next_placeholder g1 + length gs];
          apply_in = zip phs (map snd gs);
          g3 = create_slots opt apply_in (g1\<lparr>next_placeholder := next_placeholder g1 + length gs\<rparr>)
      in \<lparr>grads = gs, placeholders = phs, apply_op = ApplyGradients apply_in,
          var_sync = fst (VarSync_init (map snd gs @ filter (\<lambda>v. v \<notin> set (global_variables g)) (global_variables g3)) g3)\<rparr>)"
  by (simp add: MPIOptimizer_init_def placeholder_loop_eq apply_gradients_def Let_def split: prod.splits)

lemma init_placeholders:
  "placeholders (fst (MPIOptimizer_init opt loss var_list g)) =
     map Placeholder [next_placeholder (snd (compute_gradients opt loss var_list g)) ..<
                      next_placeholder (snd (compute_gradients opt loss var_list g))
                        + length (grads (fst (MPIOptimizer_init opt loss var_list g)))]"
  by (simp add: MPIOptimizer_init_eq Let_def split: prod.splits)

lemma init_apply_op:
  "apply_op (fst (MPIOptimizer_init opt loss var_list g)) =
     ApplyGradients (zip (placeholders (fst (MPIOptimizer_init opt loss var_list g)))
                         (map snd (grads (fst (MPIOptimizer_init opt loss var_list g)))))"
  by (simp add: MPIOptimizer_init_eq Let_def split: prod.splits)

lemma init_placeholders_distinct:
  "distinct (placeholders (fst (MPIOptimizer_init opt loss var_list g)))"
  by (subst init_placeholders) (simp add: distinct_map inj_on_def)

lemma init_placeholders_length:
  "length (placeholders (fst (MPIOptimizer_init opt loss var_list g)))
     = length (grads (fst (MPIOptimizer_init opt loss var_list g)))"
  by (subst init_placeholders) simp

text \<open>
  C6. \<open>MPIOptimizer.__init__\<close> keeps exactly the (gradient, variable) pairs whose gradient
  is not \<open>None\<close>, in order, makes one placeholder per kept pair and builds the apply step
  on the (placeholder, variable) pairs. The optimizer's own variables are those of the
  global collection after the apply step was built that were not in the collection
  before construction; the synchronizer is built over the variables of the kept pairs
  followed by these.
\<close>

theorem MPIOptimizer_init_contract:
  "(let self = fst (MPIOptimizer_init opt loss var_list g);
        (pairs, g1) = compute_gradients opt loss var_list g;
        apply_in = zip (placeholders self) (map snd (grads self));
        (apply, g3) = apply_gradients opt apply_in (g1\<lparr>next_placeholder := next_placeholder g1 + length (grads self)\<rparr>);
        optimizer_vars = filter (\<lambda>v. v \<notin> set (global_variables g)) (global_variables g3)
    in map (\<lambda>(grad, var). (Some grad, var)) (grads self) = filter (\<lambda>pair. fst pair \<noteq> None) pairs
       \<and> length (placeholders self) = length (grads self)
       \<and> apply_op self = apply
       \<and> vs_variables (var_sync self) = map snd (grads self) @ optimizer_vars)"
  by (simp add: MPIOptimizer_init_eq Let_def non_null_filter apply_gradients_def VarSync_init_def
      split: prod.splits)

lemma sync_loop_Nil: "sync_loop tf items [] = Inr []"
  by (cases items) simp_all

lemma map_fst_items:
  "length ys = length xs \<Longrightarrow> map fst (map (\<lambda>(v, ph). (v, ph, f v ph)) (zip xs ys)) = xs"
  by (induction ys xs rule: list_induct2) simp_all

lemma sequence_length: "sequence rs = Inr xs \<Longrightarrow> length xs = length rs"
  by (induction rs arbitrary: xs) (auto split: sum.splits)

lemma sync_init_closed:
  fixes tf :: "('n, 'v, 'a) tf_sem"
  shows "sync tf (fst (VarSync_init vars g)) (r0 # rest)
     = Inr (r0 # map (fold (\<lambda>v s. s(v := r0 v)) vars) rest)"
proof -
  let ?phs = "fst (make_placeholders vars g :: 'n tensor list \<times> 'v graph)"
  let ?items = "map (\<lambda>(v, ph). (v, ph, Assign v ph)) (zip vars ?phs)"
  have len: "length ?phs = length vars"
    by (simp add: make_placeholders_eq)
  have wf: "list_all (\<lambda>(v, ph, a). a = Assign v ph) ?items"
    by (simp add: list_all_iff split: prod.splits)
  have fst_items: "map fst ?items = vars"
    using len by (rule map_fst_items)
  have "sync tf (fst (VarSync_init vars g)) (r0 # rest) = sync_loop tf ?items (r0 # rest)"
    by (simp only: sync_def VarSync_init_items)
  also have "\<dots> = Inr (r0 # map (fold (\<lambda>v s. s(v := r0 v)) (map fst ?items)) rest)"
    by (rule sync_loop_wf [OF wf])
  finally show ?thesis by (simp only: fst_items)
qed

text \<open>
  C2. After \<open>sync\<close> has run on a group whose synchronizer was built by
  \<open>_VarSync.__init__\<close>, the call has returned on every process, and for every variable of
  the synchronizer the value on every process is the value the root (rank 0) held
  before the call.
\<close>

theorem sync_all_equal_root:
  "\<exists>sessions'. sync tf (fst (VarSync_init variables g)) sessions = Inr sessions'
       \<and> length sessions' = length sessions
       \<and> (\<forall>rank < length sessions. \<forall>var \<in> set variables.
             sess_run_var (sessions' ! rank) var = sess_run_var (sessions ! 0) var)"
proof (cases sessions)
  case Nil
  then show ?thesis
    by (simp add: sync_def sync_loop_Nil)
next
  case (Cons r0 rest)
  let ?upd = "fold (\<lambda>v s. s(v := r0 v)) variables"
  have eq: "sync tf (fst (VarSync_init variables g)) sessions = Inr (r0 # map ?upd rest)"
    unfolding Cons by (rule sync_init_closed)
  have "sess_run_var ((r0 # map ?upd rest) ! rank) var = sess_run_var (sessions ! 0) var"
    if "rank < length sessions" and "var \<in> set variables" for rank var
  proof (cases rank)
    case 0
    then show ?thesis by (simp add: Cons)
  next
    case (Suc k)
    with that(1) have "k < length rest" by (simp add: Cons)
    then show ?thesis
      using that(2) by (simp add: Suc Cons sess_run_var_def fold_upd_in)
  qed
  with eq show ?thesis by (simp add: Cons)
qed

lemma sync_loop_root_unchanged:
  "sync_loop tf items (r0 # rest) = Inr sessions' \<Longrightarrow> \<exists>rest'. sessions' = r0 # rest' \<and> length rest' = length rest"
proof (induction items arbitrary: rest sessions')
  case Nil
  then show ?case by auto
next
  case (Cons item items)
  from Cons.prems obtain ss where
    seq: "sequence (map (\<lambda>(rank, sess). sync_body tf rank item (sess_run_var r0 (fst item)) sess)
                        (enumerate 0 (r0 # rest))) = Inr ss"
    and loop: "sync_loop tf items ss = Inr sessions'"
    by (auto split: sum.splits)
  from seq obtain ss' where ss: "ss = r0 # ss'"
    by (auto simp: sync_body_root split: sum.splits)
  from sequence_length [OF seq] have len: "length ss' = length rest"
    by (simp add: ss)
  from loop Cons.IH [of ss' sessions'] show ?case
    unfolding ss using len by auto
qed

theorem sync_all_equal_root_witness:
  "\<exists>sessions'. sync sgd_sem (fst (VarSync_init [''w'', ''w/slot''] graph0)) sessions0 = Inr sessions'
      \<and> sess_run_var (sessions0 ! 0) ''w'' = scalar 5
      \<and> sess_run_var (sessions0 ! 1) ''w'' = scalar 0
      \<and> sess_run_var (sessions' ! 0) ''w'' = scalar 5
      \<and> sess_run_var (sessions' ! 1) ''w'' = scalar 5"
proof -
  from sync_all_equal_root [of sgd_sem "[''w'', ''w/slot'']" graph0 sessions0]
  obtain sessions' where s: "sync sgd_sem (fst (VarSync_init [''w'', ''w/slot''] graph0)) sessions0 = Inr sessions'"
    and eq: "\<forall>rank < length sessions0. \<forall>var \<in> set [''w'', ''w/slot''].
             sess_run_var (sessions' ! rank) var = sess_run_var (sessions0 ! 0) var"
    by blast
  have "sess_run_var (sessions' ! 0) ''w'' = scalar 5" "sess_run_var (sessions' ! 1) ''w'' = scalar 5"
    using eq by (simp_all add: sessions0_def sess_run_var_def)
  then show ?thesis
    using s by (simp add: sessions0_def sess_run_var_def scalar_def)
qed

text \<open>
  C9. On the root, \<open>sync\<close> changes no variable: whatever the synchronizer, when the call
  returns the session of rank 0 is the one it had before; and with a synchronizer built
  by \<open>_VarSync.__init__\<close> the call does return.
\<close>

theorem sync_root_unchanged:
  fixes tf :: "('n, 'v, 'a) tf_sem"
  shows "(\<forall>self sessions'. sync tf self (root_sess # others) = Inr sessions' \<longrightarrow> sessions' ! 0 = root_sess)
       \<and> (\<exists>sessions'. sync tf (fst (VarSync_init variables g)) (root_sess # others) = Inr sessions'
             \<and> sessions' ! 0 = root_sess)"
proof
  show "\<forall>self sessions'. sync tf self (root_sess # others) = Inr sessions' \<longrightarrow> sessions' ! 0 = root_sess"
    by (auto simp: sync_def dest: sync_loop_root_unchanged)
  show "\<exists>sessions'. sync tf (fst (VarSync_init variables g)) (root_sess # others) = Inr sessions'
             \<and> sessions' ! 0 = root_sess"
    by (simp add: sync_init_closed)
qed

theorem sync_root_unchanged_witness:
  "\<exists>sessions'. sync sgd_sem (fst (VarSync_init [''w'', ''w/slot''] graph0)) sessions0 = Inr sessions'
      \<and> sessions' ! 0 = sessions0 ! 0"
proof -
  note unchanged = sync_root_unchanged [of sgd_sem "\<lambda>v. scalar 5" "[\<lambda>v. scalar 0]" "[''w'', ''w/slot'']" graph0]
  from unchanged obtain sessions' where
    run: "sync sgd_sem (fst (VarSync_init [''w'', ''w/slot''] graph0)) [\<lambda>v. scalar 5, \<lambda>v. scalar 0] = Inr sessions'"
    by blast
  with unchanged have "sessions' ! 0 = (\<lambda>v. scalar 5)"
    by blast
  with run show ?thesis
    by (simp add: sessions0_def)
qed

subsection \<open>Gradient averaging in \<open>minimize\<close>\<close>

lemma evaluate_eq:
  "evaluate tf self (fst proc) (snd proc) terms =
     (feed_dict_or_empty (snd proc),
      map (local_value tf proc) (map fst (grads self)),
      map (local_value tf proc) (terms_or_empty terms))"
  by (simp add: evaluate_def sess_run_def Let_def local_value_def feed_dict_or_empty_def drop_map take_map)

lemma next_items_map:
  "next_items (map (\<lambda>p. f p x # map (f p) xs) ps) = Some (map (\<lambda>p. (f p x, map (f p) xs)) ps)"
  by (induction ps) simp_all

lemma columns_from_map:
  "columns_from (map (f p0) xs) (map (\<lambda>p. map (f p) xs) ps)
     = Inr (map (\<lambda>x. map (\<lambda>p. f p x) (p0 # ps)) xs)"
proof (induction xs)
  case Nil
  show ?case by (simp add: list_all_iff)
next
  case (Cons x xs)
  then show ?case
    by (simp add: next_items_map o_def)
qed

lemma columns_map:
  "procs \<noteq> [] \<Longrightarrow> columns (map (\<lambda>p. map (f p) xs) procs) = Inr (map (\<lambda>x. map (\<lambda>p. f p x) procs) xs)"
  by (cases procs) (simp_all add: columns_def columns_from_map)

lemma reduce_buffers_eq:
  "reduce_buffers ar g = (np_array ar g Float32, np_zeros ar (nd_shape g) Float32)"
  by (simp add: reduce_buffers_def)

lemma Allreduce_SUM_ok:
  assumes "list_all (\<lambda>(send, recv).
                 nd_dtype send = nd_dtype send0 \<and> nd_dtype recv = nd_dtype send0 \<and>
                 length (nd_data send) = length (nd_data send0) \<and>
                 length (nd_data recv) = length (nd_data send0)) ((send0, recv0) # rest)"
  shows "Allreduce_SUM ar ((send0, recv0) # rest) =
     Inr (map (\<lambda>(send, recv). recv\<lparr>nd_data :=
                  map (\<lambda>j. mpi_sum ar (nd_dtype send0) j
                              (map (\<lambda>(send, recv). nd_data send ! j) ((send0, recv0) # rest)))
                      [0..<length (nd_data send0)]\<rparr>)
              ((send0, recv0) # rest))"
  unfolding Allreduce_SUM_def list.case prod.case if_P [OF assms] Let_def ..

lemma Allreduce_reduce_buffers:
  assumes "same_count (g0 # rest)"
  shows "Allreduce_SUM ar (map (reduce_buffers ar) (g0 # rest)) =
     Inr (map (\<lambda>g. \<lparr>nd_dtype = Float32, nd_shape = nd_shape g,
                     nd_data = map (\<lambda>j. mpi_sum ar Float32 j
                                          (map (\<lambda>g. astype ar Float32 (nd_data g ! j)) (g0 # rest)))
                                   [0..<length (nd_data g0)]\<rparr>)
              (g0 # rest))"
proof -
  let ?send0 = "np_array ar g0 Float32"
  let ?recv0 = "np_zeros ar (nd_shape g0) Float32"
  let ?rest = "map (reduce_buffers ar) rest"
  let ?total = "map (\<lambda>j. mpi_sum ar Float32 j (map (\<lambda>g. astype ar Float32 (nd_data g ! j)) (g0 # rest)))
                    [0..<length (nd_data g0)]"
  have ok: "list_all (\<lambda>(send, recv).
                 nd_dtype send = nd_dtype ?send0 \<and> nd_dtype recv = nd_dtype ?send0 \<and>
                 length (nd_data send) = length (nd_data ?send0) \<and>
                 length (nd_data recv) = length (nd_data ?send0)) ((?send0, ?recv0) # ?rest)"
    using assms
    by (auto simp: same_count_def list_all_iff reduce_buffers_def np_zeros_def np_array_def)
  have len: "length (nd_data g) = length (nd_data g0)" if "g \<in> set (g0 # rest)" for g
    using assms that by (auto simp: same_count_def list_all_iff)
  have col: "map (\<lambda>(send, recv). nd_data send ! j) ((?send0, ?recv0) # ?rest)
      = map (\<lambda>g. astype ar Float32 (nd_data g ! j)) (g0 # rest)" if "j < length (nd_data g0)" for j
  proof -
    have "map (\<lambda>(send, recv). nd_data send ! j) ((?send0, ?recv0) # ?rest)
        = map (\<lambda>g. map (astype ar Float32) (nd_data g) ! j) (g0 # rest)"
      by (simp add: reduce_buffers_def np_array_def o_def)
    also have "\<dots> = map (\<lambda>g. astype ar Float32 (nd_data g ! j)) (g0 # rest)"
    proof (rule map_cong [OF refl])
      fix g assume "g \<in> set (g0 # rest)"
      then have "j < length (nd_data g)"
        using len [of g] that by simp
      then show "map (astype ar Float32) (nd_data g) ! j = astype ar Float32 (nd_data g ! j)"
        by (rule nth_map)
    qed
    finally show ?thesis .
  qed
  have total: "map (\<lambda>j. mpi_sum ar (nd_dtype ?send0) j
                              (map (\<lambda>(send, recv). nd_data send ! j) ((?send0, ?recv0) # ?rest)))
                      [0..<length (nd_data ?send0)] = ?total"
  proof -
    have "nd_dtype ?send0 = Float32" "length (nd_data ?send0) = length (nd_data g0)"
      by (simp_all add: np_array_def)
    have "map (\<lambda>j. mpi_sum ar Float32 j
                              (map (\<lambda>(send, recv). nd_data send ! j) ((?send0, ?recv0) # ?rest)))
                      [0..<length (nd_data g0)] = ?total"
    proof (rule map_cong [OF refl])
      fix j assume "j \<in> set [0..<length (nd_data g0)]"
      then have "j < length (nd_data g0)" by simp
      then show "mpi_sum ar Float32 j (map (\<lambda>(send, recv). nd_data send ! j) ((?send0, ?recv0) # ?rest))
          = mpi_sum ar Float32 j (map (\<lambda>g. astype ar Float32 (nd_data g ! j)) (g0 # rest))"
        by (simp only: col)
    qed
    then show ?thesis
      unfolding \<open>nd_dtype ?send0 = Float32\<close> \<open>length (nd_data ?send0) = length (nd_data g0)\<close> .
  qed
  have recv: "(case reduce_buffers ar g of (send, recv) \<Rightarrow> recv\<lparr>nd_data := tot\<rparr>)
      = \<lparr>nd_dtype = Float32, nd_shape = nd_shape g, nd_data = tot\<rparr>" for g tot
    by (simp add: reduce_buffers_def np_zeros_def)
  have "Allreduce_SUM ar (map (reduce_buffers ar) (g0 # rest)) = Allreduce_SUM ar ((?send0, ?recv0) # ?rest)"
    by (simp add: reduce_buffers_eq)
  also have "\<dots> = Inr (map (\<lambda>(send, recv). recv\<lparr>nd_data :=
                  map (\<lambda>j. mpi_sum ar (nd_dtype ?send0) j
                              (map (\<lambda>(send, recv). nd_data send ! j) ((?send0, ?recv0) # ?rest)))
                      [0..<length (nd_data ?send0)]\<rparr>)
              ((?send0, ?recv0) # ?rest))"
    by (rule Allreduce_SUM_ok [OF ok])
  also have "\<dots> = Inr (map (\<lambda>b. case b of (send, recv) \<Rightarrow> recv\<lparr>nd_data := ?total\<rparr>)
              (map (reduce_buffers ar) (g0 # rest)))"
    unfolding total by (simp add: reduce_buffers_eq)
  also have "\<dots> = Inr (map (\<lambda>g. \<lparr>nd_dtype = Float32, nd_shape = nd_shape g, nd_data = ?total\<rparr>) (g0 # rest))"
    unfolding map_map o_def recv ..
  finally show ?thesis .
qed

lemma grad_step_closed:
  assumes "procs \<noteq> []" and "same_count (map (\<lambda>q. lv q t) procs)"
  shows "grad_step ar (length procs) (map (\<lambda>p. (lv p t, ph)) procs) (map F procs) =
     Inr (map (\<lambda>p. (F p)(ph \<mapsto> mean_array ar (map (\<lambda>q. lv q t) procs) (lv p t))) procs)"
proof -
  obtain p0 rest where procs: "procs = p0 # rest"
    using assms(1) by (cases procs) auto
  let ?gs = "map (\<lambda>q. lv q t) procs"
  let ?total = "map (\<lambda>j. mpi_sum ar Float32 j (map (\<lambda>g. astype ar Float32 (nd_data g ! j)) ?gs))
                    [0..<length (nd_data (lv p0 t))]"
  have bufs: "map (\<lambda>(grad_out, placeholder). reduce_buffers ar grad_out) (map (\<lambda>p. (lv p t, ph)) procs)
      = map (reduce_buffers ar) ?gs"
    by (simp add: o_def)
  have red: "Allreduce_SUM ar (map (reduce_buffers ar) ?gs)
      = Inr (map (\<lambda>g. \<lparr>nd_dtype = Float32, nd_shape = nd_shape g, nd_data = ?total\<rparr>) ?gs)"
    using Allreduce_reduce_buffers [of "lv p0 t" "map (\<lambda>q. lv q t) rest" ar] assms(2)
    by (simp add: procs)
  have mean: "np_idiv ar \<lparr>nd_dtype = Float32, nd_shape = nd_shape g, nd_data = ?total\<rparr> (length procs)
      = mean_array ar ?gs g" for g
    by (simp add: np_idiv_def mean_array_def allreduce_mean_def procs o_def)
  have zips: "zip (map (\<lambda>p. (lv p t, ph)) procs)
                  (zip (map (\<lambda>g. \<lparr>nd_dtype = Float32, nd_shape = nd_shape g, nd_data = ?total\<rparr>) ?gs) (map F procs))
      = map (\<lambda>p. ((lv p t, ph), \<lparr>nd_dtype = Float32, nd_shape = nd_shape (lv p t), nd_data = ?total\<rparr>, F p)) procs"
    by (simp add: zip_map_map zip_same_conv_map o_def)
  have "grad_step ar (length procs) (map (\<lambda>p. (lv p t, ph)) procs) (map F procs)
      = Inr (map (\<lambda>((grad_out, placeholder), mean_grad, extra_feed).
                      extra_feed(placeholder \<mapsto> np_idiv ar mean_grad (length procs)))
                 (map (\<lambda>p. ((lv p t, ph), \<lparr>nd_dtype = Float32, nd_shape = nd_shape (lv p t), nd_data = ?total\<rparr>, F p)) procs))"
    unfolding grad_step_def bufs red sum.case zips ..
  also have "\<dots> = Inr (map (\<lambda>p. (F p)(ph \<mapsto> np_idiv ar \<lparr>nd_dtype = Float32, nd_shape = nd_shape (lv p t), nd_data = ?total\<rparr> (length procs))) procs)"
    unfolding map_map o_def prod.case ..
  finally show ?thesis
    unfolding mean .
qed

lemma grad_loop_closed:
  assumes "procs \<noteq> []"
    and "\<forall>(t, ph) \<in> set items. same_count (map (\<lambda>q. lv q t) procs)"
  shows "grad_loop ar (length procs) (map (\<lambda>(t, ph). map (\<lambda>p. (lv p t, ph)) procs) items) (map F procs) =
     Inr (map (\<lambda>p. fold (\<lambda>(t, ph) fd. fd(ph \<mapsto> mean_array ar (map (\<lambda>q. lv q t) procs) (lv p t))) items (F p))
              procs)"
  using assms(2)
proof (induction items arbitrary: F)
  case Nil
  show ?case by simp
next
  case (Cons item items)
  obtain t ph where item: "item = (t, ph)" by (cases item)
  from Cons.prems have sc: "same_count (map (\<lambda>q. lv q t) procs)"
    and rest: "\<forall>(t, ph) \<in> set items. same_count (map (\<lambda>q. lv q t) procs)"
    by (simp_all add: item)
  have step: "grad_step ar (length procs) (map (\<lambda>p. (lv p t, ph)) procs) (map F procs) =
     Inr (map (\<lambda>p. (F p)(ph \<mapsto> mean_array ar (map (\<lambda>q. lv q t) procs) (lv p t))) procs)"
    using assms(1) sc by (rule grad_step_closed)
  show ?case
    unfolding item list.map prod.case grad_loop.simps step sum.case Cons.IH [OF rest]
    by (simp only: fold.simps comp_apply prod.case)
qed

lemma term_step_closed:
  "term_step ar (length procs) (map (\<lambda>p. lv p t) procs) (map R procs) =
     map (\<lambda>p. R p @ [py_truediv ar (py_sum ar (map (\<lambda>q. lv q t) procs)) (length procs)]) procs"
proof -
  have "zip (map (\<lambda>_. py_sum ar (map (\<lambda>q. lv q t) procs)) (map (\<lambda>p. lv p t) procs)) (map R procs)
      = map (\<lambda>p. (py_sum ar (map (\<lambda>q. lv q t) procs), R p)) procs"
    by (simp add: zip_map_map zip_same_conv_map o_def)
  then show ?thesis
    unfolding term_step_def allreduce_SUM_def
    by (simp add: o_def)
qed

lemma term_loop_closed:
  "term_loop ar (length procs) (map (\<lambda>t. map (\<lambda>p. lv p t) procs) ts) (map R procs) =
     map (\<lambda>p. R p @ map (\<lambda>t. py_truediv ar (py_sum ar (map (\<lambda>q. lv q t) procs)) (length procs)) ts) procs"
proof (induction ts arbitrary: R)
  case Nil
  show ?case by simp
next
  case (Cons t ts)
  show ?case
    unfolding list.map term_loop.simps term_step_closed Cons.IH
    by simp
qed

lemma zip_same_map: "zip (map f xs) (map g xs) = map (\<lambda>x. (f x, g x)) xs"
  by (induction xs) simp_all

lemma zip_same_map3: "zip (map f xs) (zip (map g xs) (map h xs)) = map (\<lambda>x. (f x, g x, h x)) xs"
  by (induction xs) simp_all

lemma zip_self_map: "zip xs (map g xs) = map (\<lambda>x. (x, g x)) xs"
  by (induction xs) simp_all

lemma minimize_closed:
  fixes tf :: "('n, 'v, 'a) tf_sem"
  assumes ne: "procs \<noteq> []"
    and ap: "apply_op self = ApplyGradients apply_in"
    and compat: "\<forall>(t, ph) \<in> set (zip (map fst (grads self)) (placeholders self)).
                   same_count (map (\<lambda>q. local_value tf q t) procs)"
  shows "minimize ar tf self procs terms =
     Inr (map (\<lambda>p. \<lparr>out_feed = fed_means ar tf self procs p,
                     out_sess = apply_update tf apply_in (fed_means ar tf self procs p) (fst p),
                     out_result = map (term_mean ar tf procs) (terms_or_empty terms)\<rparr>) procs)"
proof -
  let ?gts = "map fst (grads self)"
  let ?phs = "placeholders self"
  let ?ts = "terms_or_empty terms"
  let ?lv = "local_value tf"
  let ?F = "\<lambda>p. feed_dict_or_empty (snd p)"
  let ?FF = "fed_means ar tf self procs"
  let ?evals = "map (\<lambda>(sess, feed_dict). evaluate tf self sess feed_dict terms) procs"
  have evals: "?evals = map (\<lambda>p. (?F p, map (?lv p) ?gts, map (?lv p) ?ts)) procs"
    by (rule map_cong [OF refl]) (simp add: case_prod_beta evaluate_eq)
  have gz: "map (\<lambda>(feed_dict, grad_outs, term_outs). zip grad_outs ?phs) ?evals
      = map (\<lambda>p. map (\<lambda>x. (?lv p (fst x), snd x)) (zip ?gts ?phs)) procs"
    unfolding evals by (simp add: zip_map1 case_prod_beta)
  have gcols: "columns (map (\<lambda>(feed_dict, grad_outs, term_outs). zip grad_outs ?phs) ?evals)
      = Inr (map (\<lambda>(t, ph). map (\<lambda>p. (?lv p t, ph)) procs) (zip ?gts ?phs))"
    unfolding gz columns_map [OF ne] by (simp add: case_prod_beta)
  have feeds0: "map fst ?evals = map ?F procs"
    unfolding evals by simp
  have gloop: "grad_loop ar (length procs) (map (\<lambda>(t, ph). map (\<lambda>p. (?lv p t, ph)) procs) (zip ?gts ?phs))
                 (map ?F procs) = Inr (map ?FF procs)"
    unfolding fed_means_def using ne compat by (rule grad_loop_closed)
  have app: "sequence (map (\<lambda>((sess, feed_dict), extra_feed). sess_run_op tf sess (apply_op self) extra_feed)
                           (zip procs (map ?FF procs)))
      = Inr (map (\<lambda>p. apply_update tf apply_in (?FF p) (fst p)) procs)"
  proof -
    have "map (\<lambda>((sess, feed_dict), extra_feed). sess_run_op tf sess (apply_op self) extra_feed)
               (zip procs (map ?FF procs))
        = map (\<lambda>p. Inr (apply_update tf apply_in (?FF p) (fst p))) procs"
      unfolding zip_self_map ap by (simp add: case_prod_beta)
    then show ?thesis
      by (simp only: sequence_map_Inr)
  qed
  have tz: "map (\<lambda>(feed_dict, grad_outs, term_outs). term_outs) ?evals = map (\<lambda>p. map (?lv p) ?ts) procs"
    unfolding evals by simp
  have tcols: "columns (map (\<lambda>(feed_dict, grad_outs, term_outs). term_outs) ?evals)
      = Inr (map (\<lambda>t. map (\<lambda>p. ?lv p t) procs) ?ts)"
    unfolding tz by (rule columns_map [OF ne])
  have tloop: "term_loop ar (length procs) (map (\<lambda>t. map (\<lambda>p. ?lv p t) procs) ?ts) (map (\<lambda>_. []) procs)
      = map (\<lambda>p. map (term_mean ar tf procs) ?ts) procs"
    unfolding term_loop_closed term_mean_def by simp
  show ?thesis
    unfolding minimize_def Let_def gcols sum.case feeds0 gloop app tcols tloop zip_same_map3
    by (simp add: o_def)
qed

lemma fold_feed_lookup:
  assumes "distinct (map snd items)" and "i < length items"
  shows "fold (\<lambda>(t, ph) fd. fd(ph \<mapsto> M t)) items fd0 (snd (items ! i)) = Some (M (fst (items ! i)))"
  using assms
proof (induction items arbitrary: i rule: rev_induct)
  case Nil
  then show ?case by simp
next
  case (snoc item items)
  obtain t ph where item: "item = (t, ph)" by (cases item)
  show ?case
  proof (cases "i < length items")
    case True
    with snoc.prems have "snd (items ! i) \<noteq> ph"
      by (auto simp: item dest: nth_mem)
    with True snoc show ?thesis
      by (simp add: item nth_append)
  next
    case False
    with snoc.prems have "i = length items" by simp
    then show ?thesis by (simp add: item)
  qed
qed

lemma fed_means_at:
  assumes "distinct (placeholders self)"
    and "length (placeholders self) = length (grads self)"
    and "i < length (grads self)"
  shows "fed_means ar tf self procs p (placeholders self ! i) =
     Some (mean_array ar (map (\<lambda>q. local_value tf q (fst (grads self ! i))) procs)
                      (local_value tf p (fst (grads self ! i))))"
proof -
  let ?items = "zip (map fst (grads self)) (placeholders self)"
  have d: "distinct (map snd ?items)" and l: "i < length ?items"
    using assms by simp_all
  have "snd (?items ! i) = placeholders self ! i" "fst (?items ! i) = fst (grads self ! i)"
    using assms by simp_all
  with fold_feed_lookup [OF d l, of "\<lambda>t. mean_array ar (map (\<lambda>q. local_value tf q t) procs) (local_value tf p t)"
      "feed_dict_or_empty (snd p)"]
  show ?thesis
    by (simp add: fed_means_def)
qed




lemma minimize_init_closed:
  fixes tf :: "('n, 'v, 'a) tf_sem"
  assumes ne: "procs \<noteq> []"
    and self: "self = fst (MPIOptimizer_init opt loss var_list g)"
    and compat: "\<forall>t \<in> set (map fst (grads self)). same_count (map (\<lambda>q. local_value tf q t) procs)"
  shows "minimize ar tf self procs terms =
     Inr (map (\<lambda>p. \<lparr>out_feed = fed_means ar tf self procs p,
                     out_sess = apply_update tf (zip (placeholders self) (map snd (grads self)))
                                  (fed_means ar tf self procs p) (fst p),
                     out_result = map (term_mean ar tf procs) (terms_or_empty terms)\<rparr>) procs)"
proof -
  have ap: "apply_op self = ApplyGradients (zip (placeholders self) (map snd (grads self)))"
    unfolding self by (rule init_apply_op)
  have "same_count (map (\<lambda>q. local_value tf q t) procs)"
    if "(t, ph) \<in> set (zip (map fst (grads self)) (placeholders self))" for t ph
  proof -
    from that have "t \<in> set (map fst (grads self))" by (rule set_zip_leftD)
    with compat show ?thesis by blast
  qed
  then have "\<forall>(t, ph) \<in> set (zip (map fst (grads self)) (placeholders self)).
          same_count (map (\<lambda>q. local_value tf q t) procs)"
    by blast
  with ne ap show ?thesis by (rule minimize_closed)
qed

lemma init_fed_means_at:
  assumes "self = fst (MPIOptimizer_init opt loss var_list g)" and "i < length (grads self)"
  shows "fed_means ar tf self procs p (placeholders self ! i) =
     Some (mean_array ar (map (\<lambda>q. local_value tf q (fst (grads self ! i))) procs)
                      (local_value tf p (fst (grads self ! i))))"
  using assms(2) unfolding assms(1)
  by (intro fed_means_at init_placeholders_distinct init_placeholders_length)


lemma self0_init: "self0 = fst (MPIOptimizer_init sgd_optimizer () None graph0)"
  by (simp add: self0_def)

lemma self0_grads: "grads self0 = [(Node ''grad_w'', ''w'')]"
  by (simp add: self0_def MPIOptimizer_init_eq sgd_optimizer_def)

lemma self0_placeholders: "placeholders self0 = [Placeholder 0]"
  by (simp add: self0_def MPIOptimizer_init_eq sgd_optimizer_def graph0_def)


lemma procs0_same_count:
  "\<forall>t \<in> set (map fst (grads self0)). same_count (map (\<lambda>q. local_value sgd_sem q t) procs0)"
  by (simp add: self0_grads same_count_def procs0_def local_value_def sgd_sem_def scalar_def)








lemma evaluate_feed_default:
  "evaluate tf self sess (Some (feed_dict_or_empty feed_dict)) terms = evaluate tf self sess feed_dict terms"
  by (simp add: evaluate_def feed_dict_or_empty_def)

lemma minimize_feed_default:
  "minimize ar tf self (map (\<lambda>(sess, feed_dict). (sess, Some (feed_dict_or_empty feed_dict))) procs) terms
     = minimize ar tf self procs terms"
proof -
  let ?g = "\<lambda>(sess, feed_dict). (sess, Some (feed_dict_or_empty feed_dict))"
  have a: "map (\<lambda>(sess, feed_dict). evaluate tf self sess feed_dict terms) (map ?g procs)
      = map (\<lambda>(sess, feed_dict). evaluate tf self sess feed_dict terms) procs"
    by (simp add: case_prod_beta evaluate_feed_default)
  have b: "map (\<lambda>((sess, feed_dict), extra_feed). sess_run_op tf sess (apply_op self) extra_feed)
               (zip (map ?g procs) efs)
      = map (\<lambda>((sess, feed_dict), extra_feed). sess_run_op tf sess (apply_op self) extra_feed)
            (zip procs efs)" for efs
    by (simp add: zip_map1 case_prod_beta)
  have c: "map (\<lambda>_. []) (map ?g procs) = map (\<lambda>_. []) procs"
    by simp
  show ?thesis
    unfolding minimize_def a b c length_map ..
qed

text \<open>
  C10. Called without terms (\<open>terms\<close> omitted, \<open>None\<close> or the empty list), \<open>minimize\<close>
  returns the empty tuple on every process, having fed every placeholder with the mean
  of the group for its gradient and run the apply step on that feed. A missing feed dict
  acts as the empty one.
\<close>

theorem minimize_without_terms:
  fixes tf :: "('n, 'v, 'a) tf_sem"
  assumes "procs \<noteq> []"
    and "self = fst (MPIOptimizer_init opt loss var_list g)"
    and "\<forall>t \<in> set (map fst (grads self)). same_count (map (\<lambda>q. local_value tf q t) procs)"
    and "terms = None \<or> terms = Some []"
  shows "\<exists>outs. minimize ar tf self procs terms = Inr outs \<and> length outs = length procs \<and>
     (\<forall>rank < length procs.
        out_result (outs ! rank) = [] \<and>
        out_sess (outs ! rank) =
          apply_update tf (zip (placeholders self) (map snd (grads self))) (out_feed (outs ! rank))
            (fst (procs ! rank)) \<and>
        (\<forall>i < length (grads self).
           out_feed (outs ! rank) (placeholders self ! i) =
             Some (mean_array ar (map (\<lambda>q. local_value tf q (fst (grads self ! i))) procs)
                              (local_value tf (procs ! rank) (fst (grads self ! i)))))) \<and>
     minimize ar tf self (map (\<lambda>(sess, feed_dict). (sess, Some (feed_dict_or_empty feed_dict))) procs) terms
       = minimize ar tf self procs terms"
proof -
  have "terms_or_empty terms = []"
    using assms(4) by (auto simp: terms_or_empty_def)
  then show ?thesis
    unfolding minimize_feed_default minimize_init_closed [OF assms(1-3)]
    by (simp add: init_fed_means_at [OF assms(2)])
qed

theorem minimize_without_terms_witness:
  "\<exists>outs. minimize exact_arith sgd_sem self0 procs0 None = Inr outs \<and>
     out_result (outs ! 0) = [] \<and>
     out_feed (outs ! 0) (Placeholder 0) = Some (scalar 2) \<and>
     out_sess (outs ! 0) ''w'' = scalar (- 2)"
proof -
  have ne: "procs0 \<noteq> []" by (simp add: procs0_def)
  from minimize_without_terms [OF ne self0_init procs0_same_count, of None exact_arith]
  obtain outs where run: "minimize exact_arith sgd_sem self0 procs0 None = Inr outs"
    and res: "out_result (outs ! 0) = []"
    and sess: "out_sess (outs ! 0) =
          apply_update sgd_sem (zip (placeholders self0) (map snd (grads self0))) (out_feed (outs ! 0))
            (fst (procs0 ! 0))"
    and fed: "out_feed (outs ! 0) (placeholders self0 ! 0) =
             Some (mean_array exact_arith (map (\<lambda>q. local_value sgd_sem q (fst (grads self0 ! 0))) procs0)
                              (local_value sgd_sem (procs0 ! 0) (fst (grads self0 ! 0))))"
    by (auto simp: procs0_def self0_grads)
  have fed2: "out_feed (outs ! 0) (Placeholder 0) = Some (scalar 2)"
    using fed
    by (simp add: self0_grads self0_placeholders mean_array_def allreduce_mean_def procs0_def
        local_value_def sgd_sem_def feed_dict_or_empty_def scalar_def exact_arith_def)
  have "out_sess (outs ! 0) ''w'' = scalar (- 2)"
    unfolding sess
    by (simp add: self0_grads self0_placeholders fed2 sgd_sem_def procs0_def scalar_def)
  with run res fed2 show ?thesis by blast
qed








subsection \<open>The driver \<open>mpi_ppo\<close>\<close>

lemma log_batch_inactive:
  "log_fn = None \<or> rank \<noteq> 0 \<Longrightarrow> log_batch ar log_fn rank batch_idx terms calls = Inr calls"
  by (auto simp: log_batch_def)

lemma log_batch_active:
  "log_fn \<noteq> None \<Longrightarrow> 4 \<le> length terms \<Longrightarrow>
   log_batch ar log_fn 0 batch_idx terms calls =
     Inr (calls @ [py_format ar batch_idx (py_neg ar (terms ! 0)) (terms ! 1) (terms ! 2) (terms ! 3)])"
  by (auto simp: log_batch_def tuple_get_def)

lemma log_lines_length: "length (log_lines ar batch_idx ts) = length ts"
  by (induction ts arbitrary: batch_idx) simp_all

lemma log_lines_nth:
  "k < length ts \<Longrightarrow>
   log_lines ar batch_idx ts ! k =
     py_format ar (batch_idx + int k) (py_neg ar (ts ! k ! 0)) (ts ! k ! 1) (ts ! k ! 2) (ts ! k ! 3)"
proof (induction ts arbitrary: batch_idx k)
  case Nil
  then show ?case by simp
next
  case (Cons t ts)
  then show ?case
    by (cases k) (simp_all add: algebra_simps)
qed

lemma minimize_calls_length: "length (snd (minimize_calls opt_minimize terms fds sess)) = length fds"
  by (induction fds arbitrary: sess) (simp_all add: case_prod_beta)

lemma ppo_loop_closed:
  fixes ppo :: "('n, 'a, 'r, 'b, 'adv, 'tgt) PPO"
  assumes ok: "log_fn = None \<or> rank \<noteq> 0 \<or>
      (\<forall>s fd. 4 \<le> length (snd (opt_minimize s fd [actor_loss ppo, explained_var ppo, entropy ppo, num_clipped ppo])))"
  shows "ppo_loop ar ppo opt_minimize rollouts (adv_est_advantages ppo rollouts) (adv_est_targets ppo rollouts)
           num_iter log_fn extra_feed_dict rank batches batch_idx sess result calls =
     Inr (fst (minimize_calls opt_minimize [actor_loss ppo, explained_var ppo, entropy ppo, num_clipped ppo]
                 (map (batch_feed ppo rollouts extra_feed_dict)
                      (take (if batch_idx < num_iter then nat (num_iter - batch_idx) else length batches) batches))
                 sess),
          result @ snd (minimize_calls opt_minimize [actor_loss ppo, explained_var ppo, entropy ppo, num_clipped ppo]
                 (map (batch_feed ppo rollouts extra_feed_dict)
                      (take (if batch_idx < num_iter then nat (num_iter - batch_idx) else length batches) batches))
                 sess),
          calls @ logged ar log_fn rank batch_idx
             (snd (minimize_calls opt_minimize [actor_loss ppo, explained_var ppo, entropy ppo, num_clipped ppo]
                 (map (batch_feed ppo rollouts extra_feed_dict)
                      (take (if batch_idx < num_iter then nat (num_iter - batch_idx) else length batches) batches))
                 sess)))"
proof (induction batches arbitrary: batch_idx sess result calls)
  case Nil
  show ?case by (simp add: logged_def)
next
  case (Cons batch batches)
  let ?T = "[actor_loss ppo, explained_var ppo, entropy ppo, num_clipped ppo]"
  let ?fd = "batch_feed ppo rollouts extra_feed_dict batch"
  obtain sess1 terms where m: "opt_minimize sess ?fd ?T = (sess1, terms)"
    by (cases "opt_minimize sess ?fd ?T")
  have fd: "(case extra_feed_dict of
               None \<Rightarrow> ppo_feed_dict ppo rollouts batch (adv_est_advantages ppo rollouts) (adv_est_targets ppo rollouts)
             | Some extra \<Rightarrow> ppo_feed_dict ppo rollouts batch (adv_est_advantages ppo rollouts) (adv_est_targets ppo rollouts) ++ extra)
      = ?fd"
    by (simp add: batch_feed_def Let_def)
  have lg: "log_batch ar log_fn rank batch_idx terms calls = Inr (calls @ logged ar log_fn rank batch_idx [terms])"
  proof (cases "log_fn \<noteq> None \<and> rank = 0")
    case True
    with ok m have "4 \<le> length terms"
      by (metis snd_conv)
    with True show ?thesis
      by (simp add: log_batch_active logged_def)
  next
    case False
    then show ?thesis
      by (auto simp: log_batch_inactive logged_def)
  qed
  have step: "ppo_loop ar ppo opt_minimize rollouts (adv_est_advantages ppo rollouts) (adv_est_targets ppo rollouts)
           num_iter log_fn extra_feed_dict rank (batch # batches) batch_idx sess result calls =
      (if batch_idx + 1 = num_iter
       then Inr (sess1, result @ [terms], calls @ logged ar log_fn rank batch_idx [terms])
       else ppo_loop ar ppo opt_minimize rollouts (adv_est_advantages ppo rollouts) (adv_est_targets ppo rollouts)
           num_iter log_fn extra_feed_dict rank batches (batch_idx + 1) sess1 (result @ [terms])
           (calls @ logged ar log_fn rank batch_idx [terms]))"
    by (simp add: fd m lg Let_def)
  show ?case
  proof (cases "batch_idx + 1 = num_iter")
    case True
    then have "batch_idx < num_iter" "nat (num_iter - batch_idx) = 1" by simp_all
    then show ?thesis
      unfolding step by (simp add: True m)
  next
    case False
    have tk: "take (if batch_idx < num_iter then nat (num_iter - batch_idx) else length (batch # batches)) (batch # batches)
        = batch # take (if batch_idx + 1 < num_iter then nat (num_iter - (batch_idx + 1)) else length batches) batches"
    proof (cases "batch_idx < num_iter")
      case True
      with False have "batch_idx + 1 < num_iter" by simp
      moreover from this have "nat (num_iter - batch_idx) = Suc (nat (num_iter - (batch_idx + 1)))" by simp
      ultimately show ?thesis using True by simp
    next
      case False
      then show ?thesis by simp
    qed
    have lg2: "logged ar log_fn rank batch_idx [terms] @ logged ar log_fn rank (batch_idx + 1) ts
        = logged ar log_fn rank batch_idx (terms # ts)" for ts
      by (simp add: logged_def)
    show ?thesis
      unfolding step tk using False
      by (simp add: Cons.IH m case_prod_beta lg2)
  qed
qed

lemma mpi_ppo_closed:
  fixes ppo :: "('n, 'a, 'r, 'b, 'adv, 'tgt) PPO"
  assumes "log_fn = None \<or> rank \<noteq> 0 \<or>
      (\<forall>s fd. 4 \<le> length (snd (opt_minimize s fd [actor_loss ppo, explained_var ppo, entropy ppo, num_clipped ppo])))"
  shows "mpi_ppo ar rank ppo opt_minimize sess rollouts batch_size num_iter log_fn extra_feed_dict =
     Inr (fst (minimize_calls opt_minimize [actor_loss ppo, explained_var ppo, entropy ppo, num_clipped ppo]
                 (map (batch_feed ppo rollouts extra_feed_dict)
                      (take (if 0 < num_iter then nat num_iter else length (model_batches ppo rollouts batch_size))
                            (model_batches ppo rollouts batch_size)))
                 sess),
          snd (minimize_calls opt_minimize [actor_loss ppo, explained_var ppo, entropy ppo, num_clipped ppo]
                 (map (batch_feed ppo rollouts extra_feed_dict)
                      (take (if 0 < num_iter then nat num_iter else length (model_batches ppo rollouts batch_size))
                            (model_batches ppo rollouts batch_size)))
                 sess),
          logged ar log_fn rank 0
             (snd (minimize_calls opt_minimize [actor_loss ppo, explained_var ppo, entropy ppo, num_clipped ppo]
                 (map (batch_feed ppo rollouts extra_feed_dict)
                      (take (if 0 < num_iter then nat num_iter else length (model_batches ppo rollouts batch_size))
                            (model_batches ppo rollouts batch_size)))
                 sess)))"
  unfolding mpi_ppo_def Let_def
    ppo_loop_closed [where opt_minimize = opt_minimize and ppo = ppo and log_fn = log_fn and rank = rank,
      OF assms]
  by simp

text \<open>
  C7, as stated, fails for an iteration cap of 0: the cap is compared with the number of
  completed iterations only after a batch has been processed, so it is never met and
  both batches of the source are processed.
\<close>

theorem mpi_ppo_cap_zero_counterexample:
  "mpi_ppo exact_arith 0 ppo0 opt_minimize0 0 () None 0 (None :: unit option) None
     = Inr (2, [[scalar 0, scalar 0, scalar 0, scalar 0], [scalar 0, scalar 0, scalar 0, scalar 0]], [])
   \<and> length (model_batches ppo0 () None) = 2
   \<and> int (length [[scalar 0, scalar 0, scalar 0, scalar 0], [scalar 0, scalar 0, scalar 0, scalar (0 :: real)]])
        \<noteq> min (int (length (model_batches ppo0 () None))) 0"
  by (simp add: mpi_ppo_def ppo0_def opt_minimize0_def log_batch_def)

text \<open>
  C7, amended. With an iteration cap of at least 1 (and a \<open>minimize\<close> that returns one
  entry per term), \<open>mpi_ppo\<close> calls \<open>minimize\<close> once for each of the first
  \<open>min (number of batches) num_iter\<close> batches, in order, each call starting from the
  session the previous one left, and returns the tuples of these calls in call order.
\<close>

theorem mpi_ppo_result_length:
  fixes ppo :: "('n, 'a, 'r, 'b, 'adv, 'tgt) PPO"
  assumes "1 \<le> num_iter"
    and "\<forall>s fd ts. length (snd (opt_minimize s fd ts)) = length ts"
  shows "\<exists>sess' result calls.
     mpi_ppo ar rank ppo opt_minimize sess rollouts batch_size num_iter log_fn extra_feed_dict
       = Inr (sess', result, calls)
     \<and> length result = min (length (model_batches ppo rollouts batch_size)) (nat num_iter)
     \<and> (sess', result) =
         minimize_calls opt_minimize [actor_loss ppo, explained_var ppo, entropy ppo, num_clipped ppo]
           (map (batch_feed ppo rollouts extra_feed_dict)
                (take (nat num_iter) (model_batches ppo rollouts batch_size)))
           sess"
proof -
  have "log_fn = None \<or> rank \<noteq> 0 \<or>
      (\<forall>s fd. 4 \<le> length (snd (opt_minimize s fd [actor_loss ppo, explained_var ppo, entropy ppo, num_clipped ppo])))"
    using assms(2) by simp
  from mpi_ppo_closed [where opt_minimize = opt_minimize and ppo = ppo and log_fn = log_fn and rank = rank,
      OF this] assms(1) show ?thesis
    by (simp add: minimize_calls_length min.commute)
qed

theorem mpi_ppo_result_length_witness:
  "\<exists>sess' result calls.
     mpi_ppo exact_arith 0 ppo0 opt_minimize0 0 () None 1 (Some ()) None = Inr (sess', result, calls)
     \<and> length (model_batches ppo0 () None) = 2
     \<and> length result = 1
     \<and> sess' = 1"
proof -
  have len: "\<forall>s fd ts. length (snd (opt_minimize0 s fd ts)) = length ts"
    by (simp add: opt_minimize0_def)
  from mpi_ppo_result_length [of 1 opt_minimize0 exact_arith 0 ppo0 0 "()" None "Some ()" None, OF _ len]
  show ?thesis
    by (auto simp: ppo0_def opt_minimize0_def)
qed

text \<open>
  C8. A process of non-zero rank, or any process when \<open>log_fn\<close> is not set, returns
  without a single call of \<open>log_fn\<close>. Rank 0 with \<open>log_fn\<close> set (and a \<open>minimize\<close> that
  returns one entry per term) calls it exactly once per returned tuple, the k-th call
  with the line formatted from the batch index \<open>k\<close> and the k-th tuple.
\<close>

theorem mpi_ppo_logs_on_root_only:
  fixes ppo :: "('n, 'a, 'r, 'b, 'adv, 'tgt) PPO"
  shows "(rank \<noteq> 0 \<or> log_fn = None \<longrightarrow>
           (\<exists>sess' result.
              mpi_ppo ar rank ppo opt_minimize sess rollouts batch_size num_iter log_fn extra_feed_dict
                = Inr (sess', result, [])))
       \<and> (rank = 0 \<and> log_fn \<noteq> None \<and> (\<forall>s fd ts. length (snd (opt_minimize s fd ts)) = length ts) \<longrightarrow>
           (\<exists>sess' result calls.
              mpi_ppo ar rank ppo opt_minimize sess rollouts batch_size num_iter log_fn extra_feed_dict
                = Inr (sess', result, calls)
              \<and> length calls = length result
              \<and> (\<forall>k < length result.
                    calls ! k = py_format ar (int k) (py_neg ar (result ! k ! 0)) (result ! k ! 1)
                                  (result ! k ! 2) (result ! k ! 3))))"
proof (intro conjI impI)
  assume "rank \<noteq> 0 \<or> log_fn = None"
  then have ok: "log_fn = None \<or> rank \<noteq> 0 \<or>
      (\<forall>s fd. 4 \<le> length (snd (opt_minimize s fd [actor_loss ppo, explained_var ppo, entropy ppo, num_clipped ppo])))"
    and off: "logged ar log_fn rank 0 ts = []" for ts
    by (auto simp: logged_def)
  show "\<exists>sess' result.
          mpi_ppo ar rank ppo opt_minimize sess rollouts batch_size num_iter log_fn extra_feed_dict
            = Inr (sess', result, [])"
    unfolding mpi_ppo_closed [where opt_minimize = opt_minimize and ppo = ppo and log_fn = log_fn
        and rank = rank, OF ok] off by blast
next
  assume a: "rank = 0 \<and> log_fn \<noteq> None \<and> (\<forall>s fd ts. length (snd (opt_minimize s fd ts)) = length ts)"
  then have ok: "log_fn = None \<or> rank \<noteq> 0 \<or>
      (\<forall>s fd. 4 \<le> length (snd (opt_minimize s fd [actor_loss ppo, explained_var ppo, entropy ppo, num_clipped ppo])))"
    and on: "logged ar log_fn rank 0 ts = log_lines ar 0 ts" for ts
    by (simp_all add: logged_def)
  show "\<exists>sess' result calls.
          mpi_ppo ar rank ppo opt_minimize sess rollouts batch_size num_iter log_fn extra_feed_dict
            = Inr (sess', result, calls)
          \<and> length calls = length result
          \<and> (\<forall>k < length result.
                calls ! k = py_format ar (int k) (py_neg ar (result ! k ! 0)) (result ! k ! 1)
                              (result ! k ! 2) (result ! k ! 3))"
    unfolding mpi_ppo_closed [where opt_minimize = opt_minimize and ppo = ppo and log_fn = log_fn
        and rank = rank, OF ok] on
    by (simp add: log_lines_length log_lines_nth)
qed

theorem mpi_ppo_logs_on_root_only_witness:
  "(\<exists>sess' result.
      mpi_ppo exact_arith 1 ppo0 opt_minimize0 0 () None 12 (Some ()) None = Inr (sess', result, []))
   \<and> (\<exists>sess' result calls.
        mpi_ppo exact_arith 0 ppo0 opt_minimize0 0 () None 12 (Some ()) None = Inr (sess', result, calls)
        \<and> length calls = length result
        \<and> length result = 2)"
proof -
  have len: "\<forall>s fd ts. length (snd (opt_minimize0 s fd ts)) = length ts"
    by (simp add: opt_minimize0_def)
  from mpi_ppo_logs_on_root_only [of 1 "Some ()" exact_arith ppo0 opt_minimize0 0 "()" None 12 None]
  have nonroot: "\<exists>sess' result.
      mpi_ppo exact_arith 1 ppo0 opt_minimize0 0 () None 12 (Some ()) None = Inr (sess', result, [])"
    by simp
  from mpi_ppo_logs_on_root_only [of 0 "Some ()" exact_arith ppo0 opt_minimize0 0 "()" None 12 None] len
  obtain sess' result calls where
    run: "mpi_ppo exact_arith 0 ppo0 opt_minimize0 0 () None 12 (Some ()) None = Inr (sess', result, calls)"
    and eq: "length calls = length result"
    by auto
  have "mpi_ppo exact_arith 0 ppo0 opt_minimize0 0 () None 12 (Some ()) None
      = Inr (2, [[scalar 0, scalar 0, scalar 0, scalar 0], [scalar 0, scalar 0, scalar 0, scalar 0]],
             [''batch'', ''batch''])"
    by (simp add: mpi_ppo_def ppo0_def opt_minimize0_def log_batch_def tuple_get_def exact_arith_def)
  with run have "length result = 2"
    by auto
  with run eq nonroot show ?thesis by blast
qed

end
